theory Spec2Isabelle
  imports Main
begin

section \<open>Python strings and builtins used by spotify-clean.py\<close>

text \<open>
  Strings are \<open>string\<close> (lists of characters), restricted to ASCII: \<open>str.lower\<close>
  maps \<open>A\<close>..\<open>Z\<close> to \<open>a\<close>..\<open>z\<close> and leaves every other character alone,
  \<open>str.strip\<close> removes the ASCII characters Python counts as whitespace
  (codes 9 to 13, 28 to 31 and 32), \<open>str.isdigit\<close> accepts the digits \<open>0\<close>..\<open>9\<close>.
\<close>

definition lower_char :: "char \<Rightarrow> char" where
  "lower_char c =
     (case map_of (zip ''ABCDEFGHIJKLMNOPQRSTUVWXYZ'' ''abcdefghijklmnopqrstuvwxyz'') c of
        None \<Rightarrow> c
      | Some d \<Rightarrow> d)"

definition lower :: "string \<Rightarrow> string" where
  "lower s = map lower_char s"

definition is_space :: "char \<Rightarrow> bool" where
  "is_space c \<longleftrightarrow>
     c \<in> set [CHR 0x09, CHR 0x0A, CHR 0x0B, CHR 0x0C, CHR 0x0D,
               CHR 0x1C, CHR 0x1D, CHR 0x1E, CHR 0x1F, CHR '' '']"

definition strip :: "string \<Rightarrow> string" where
  "strip s = rev (dropWhile is_space (rev (dropWhile is_space s)))"

text \<open>\<open>sep.join(xs)\<close>.\<close>

fun join :: "string \<Rightarrow> string list \<Rightarrow> string" where
  "join sep [] = []"
| "join sep [x] = x"
| "join sep (x # y # ys) = x @ sep @ join sep (y # ys)"

definition is_digit :: "char \<Rightarrow> bool" where
  "is_digit c \<longleftrightarrow> c \<in> set ''0123456789''"

definition isdigit :: "string \<Rightarrow> bool" where
  "isdigit s \<longleftrightarrow> s \<noteq> [] \<and> list_all is_digit s"

definition digit_val :: "char \<Rightarrow> int" where
  "digit_val c =
     (case map_of (zip ''0123456789'' [0, 1, 2, 3, 4, 5, 6, 7, 8, 9]) c of
        None \<Rightarrow> 0
      | Some d \<Rightarrow> d)"

text \<open>
  \<open>int(s)\<close> on a string: whitespace around the literal is skipped (for \<open>int\<close> this
  is the C notion, codes 9 to 13 and 32), then an optional sign, then decimal digits,
  where single underscores may separate digits. Anything else raises ValueError,
  which is the value \<open>None\<close> here. (The interpreter's limit on the number of digits
  of a literal, 4300 by default, is not part of the model.)
\<close>

definition is_space_int :: "char \<Rightarrow> bool" where
  "is_space_int c \<longleftrightarrow>
     c \<in> set [CHR 0x09, CHR 0x0A, CHR 0x0B, CHR 0x0C, CHR 0x0D, CHR '' '']"

fun int_digits :: "int \<Rightarrow> string \<Rightarrow> int option" where
  "int_digits a [] = Some a"
| "int_digits a (c # cs) =
     (if is_digit c then int_digits (10 * a + digit_val c) cs
      else if c = CHR ''_'' then
        (case cs of
           [] \<Rightarrow> None
         | d # ds \<Rightarrow> if is_digit d then int_digits (10 * a + digit_val d) ds else None)
      else None)"

definition int_unsigned :: "string \<Rightarrow> int option" where
  "int_unsigned s =
     (case s of
        [] \<Rightarrow> None
      | c # cs \<Rightarrow> if is_digit c then int_digits (digit_val c) cs else None)"

definition py_int :: "string \<Rightarrow> int option" where
  "py_int s =
     (case rev (dropWhile is_space_int (rev (dropWhile is_space_int s))) of
        [] \<Rightarrow> None
      | c # cs \<Rightarrow>
          if c = CHR ''-'' then map_option uminus (int_unsigned cs)
          else if c = CHR ''+'' then int_unsigned cs
          else int_unsigned (c # cs))"

text \<open>
  \<open>list(dict.fromkeys(xs))\<close>, and the keys of a dict filled by \<open>setdefault\<close>: the
  distinct elements of \<open>xs\<close> in the order of their first occurrence.
\<close>

fun fromkeys_acc :: "'a list \<Rightarrow> 'a list \<Rightarrow> 'a list" where
  "fromkeys_acc keys [] = keys"
| "fromkeys_acc keys (x # xs) =
     (if x \<in> set keys then fromkeys_acc keys xs else fromkeys_acc (keys @ [x]) xs)"

definition dict_fromkeys :: "'a list \<Rightarrow> 'a list" where
  "dict_fromkeys xs = fromkeys_acc [] xs"

text \<open>
  \<open>_chunked_list(lst, n)\<close>: the slices \<open>lst[i:i+n]\<close> for \<open>i\<close> in
  \<open>range(0, len(lst), n)\<close>. A step of 0 makes \<open>range\<close> raise ValueError.
\<close>

datatype py_exn = ValueError | OverflowError | OSError | EOFError | IndexError

function chunks_from :: "'a list \<Rightarrow> nat \<Rightarrow> nat \<Rightarrow> 'a list list" where
  "chunks_from lst n i =
     (if n = 0 \<or> length lst \<le> i then []
      else take n (drop i lst) # chunks_from lst n (i + n))"
  by pat_completeness auto
termination
  by (relation "measure (\<lambda>(lst, n, i). length lst - i)") auto

declare chunks_from.simps [simp del]

definition chunked_list :: "'a list \<Rightarrow> nat \<Rightarrow> py_exn + 'a list list" where
  "chunked_list lst n = (if n = 0 then Inl ValueError else Inr (chunks_from lst n 0))"

section \<open>Playlist pages\<close>

text \<open>
  What \<open>sp.playlist_items\<close> and \<open>sp.next\<close> return: a page is the list under
  \<open>'items'\<close>; the playlist is the list of its pages, \<open>'next'\<close> being set on every
  page but the last. An item's \<open>'track'\<close> may be null. The reads are taken to succeed.
\<close>

record album =
  release_date :: "string option"

record track =
  name :: string
  artists :: "string list"
  uri :: string
  album :: "album option"

record item =
  added_at :: "string option"
  track :: "track option"

type_synonym page = "item list"

section \<open>The remote client, the terminal and the clock\<close>

text \<open>
  The two mutation methods of the client, with the list they are given (the playlist
  id is the same throughout a flow and is left out). An element of the list given to
  \<open>playlist_remove_specific_occurrences_of_items\<close> is a dict with the keys
  \<open>'uri'\<close> and \<open>'positions'\<close>.
\<close>

record occurrence =
  occ_uri :: string
  positions :: "nat list"

datatype call =
  Remove_all_occurrences "string list"
| Remove_specific_occurrences "occurrence list"

text \<open>
  How a call ends: it returns, it raises \<open>SpotifyException\<close> (whose \<open>http_status\<close>
  and \<open>headers\<close> attributes may be missing or None), or it raises another
  \<open>Exception\<close>. The remote is a function from the calls made so far and the
  present call to the way it ends.
\<close>

datatype response =
  Success
| Spotify_Exception "int option" "(string \<times> string) list option"
| Other_Exception

type_synonym api = "call list \<Rightarrow> call \<Rightarrow> response"

text \<open>What the program prints, one constructor for each message, with the values it formats.\<close>

datatype msg =
  Artist_removed nat string
| Name_removed nat string
| Remove_error
| Artist_not_found string
| Name_not_found string
| Scanning
| No_duplicates
| Found_duplicates nat
| Group_header nat string nat
| Occurrence_line nat nat "string option" string
| Choose_prompt string nat
| Invalid_input
| Skipping
| Selected nat
| Out_of_range
| Nothing_selected
| Rate_limit int
| Batch_error
| Unexpected_batch_error
| Failed_occurrence "nat list" string
| Failed_uri string
| Duplicates_removed nat
| Searching int
| None_before int
| List_header
| List_line nat string string string
| Confirm_prompt
| Cancelled
| Nothing_to_remove
| Tracks_removed nat

text \<open>
  The state a flow acts on: the mutation calls issued so far, the durations slept, the
  messages printed, the lines the user is still to type, and the clock of the platform:
  whether its sleep accepts a duration, given the durations slept so far.
\<close>

record world =
  calls :: "call list"
  slept :: "int list"
  printed :: "msg list"
  stdin :: "string list"
  clock :: "int list \<Rightarrow> int \<Rightarrow> bool"

definition print :: "msg \<Rightarrow> world \<Rightarrow> world" where
  "print m w = w\<lparr>printed := printed w @ [m]\<rparr>"

text \<open>\<open>input(prompt)\<close> writes the prompt and reads a line; at end of input it raises EOFError.\<close>

definition input :: "msg \<Rightarrow> world \<Rightarrow> py_exn \<times> world + string \<times> world" where
  "input prompt w =
     (case stdin w of
        [] \<Rightarrow> Inl (EOFError, print prompt w)
      | l # ls \<Rightarrow> Inr (l, (print prompt w)\<lparr>stdin := ls\<rparr>))"

text \<open>
  \<open>time.sleep(secs)\<close> on an integer: a negative duration raises ValueError, one
  that does not fit the 64-bit nanosecond count raises OverflowError; a duration in
  between is handed to the platform, whose sleep either takes place or fails with
  OSError (on Linux, a deadline beyond the range of the kernel's clock).
\<close>

definition time_sleep :: "int \<Rightarrow> world \<Rightarrow> py_exn \<times> world + world" where
  "time_sleep secs w =
     (if secs < 0 then Inl (ValueError, w)
      else if 9223372036 < secs then Inl (OverflowError, w)
      else if \<not> clock w (slept w) secs then Inl (OSError, w)
      else Inr (w\<lparr>slept := slept w @ [secs]\<rparr>))"

definition do_call :: "api \<Rightarrow> call \<Rightarrow> world \<Rightarrow> response \<times> world" where
  "do_call sp c w = (sp (calls w) c, w\<lparr>calls := calls w @ [c]\<rparr>)"

section \<open>remove_artist_from_playlist and remove_music_from_playlist\<close>

fun artist_items :: "item list \<Rightarrow> string \<Rightarrow> string list \<Rightarrow> string list" where
  "artist_items [] artist_name tracks_to_remove = tracks_to_remove"
| "artist_items (it # its) artist_name tracks_to_remove =
     (case track it of
        None \<Rightarrow> artist_items its artist_name tracks_to_remove
      | Some t \<Rightarrow>
          if list_ex (\<lambda>a. lower a = lower artist_name) (artists t)
          then artist_items its artist_name (tracks_to_remove @ [uri t])
          else artist_items its artist_name tracks_to_remove)"

fun artist_pages :: "page list \<Rightarrow> string \<Rightarrow> string list \<Rightarrow> string list" where
  "artist_pages [] artist_name tracks_to_remove = tracks_to_remove"
| "artist_pages (p # ps) artist_name tracks_to_remove =
     artist_pages ps artist_name (artist_items p artist_name tracks_to_remove)"

definition remove_artist_from_playlist :: "api \<Rightarrow> page list \<Rightarrow> string \<Rightarrow> world \<Rightarrow> world" where
  "remove_artist_from_playlist sp pages artist_name w =
     (let tracks_to_remove = artist_pages pages artist_name [] in
      if tracks_to_remove \<noteq> [] then
        (case do_call sp (Remove_all_occurrences tracks_to_remove) w of
           (Success, w1) \<Rightarrow> print (Artist_removed (length tracks_to_remove) artist_name) w1
         | (_, w1) \<Rightarrow> print Remove_error w1)
      else print (Artist_not_found artist_name) w)"

fun music_items :: "item list \<Rightarrow> string \<Rightarrow> string list \<Rightarrow> string list" where
  "music_items [] track_name tracks_to_remove = tracks_to_remove"
| "music_items (it # its) track_name tracks_to_remove =
     (case track it of
        None \<Rightarrow> music_items its track_name tracks_to_remove
      | Some t \<Rightarrow>
          if lower (name t) = lower track_name
          then music_items its track_name (tracks_to_remove @ [uri t])
          else music_items its track_name tracks_to_remove)"

fun music_pages :: "page list \<Rightarrow> string \<Rightarrow> string list \<Rightarrow> string list" where
  "music_pages [] track_name tracks_to_remove = tracks_to_remove"
| "music_pages (p # ps) track_name tracks_to_remove =
     music_pages ps track_name (music_items p track_name tracks_to_remove)"

definition remove_music_from_playlist :: "api \<Rightarrow> page list \<Rightarrow> string \<Rightarrow> world \<Rightarrow> world" where
  "remove_music_from_playlist sp pages track_name w =
     (let tracks_to_remove = music_pages pages track_name [] in
      if tracks_to_remove \<noteq> [] then
        (case do_call sp (Remove_all_occurrences (dict_fromkeys tracks_to_remove)) w of
           (Success, w1) \<Rightarrow> print (Name_removed (length tracks_to_remove) track_name) w1
         | (_, w1) \<Rightarrow> print Remove_error w1)
      else print (Name_not_found track_name) w)"

section \<open>The batch loop of remove_duplicates_from_playlist and remove_tracks_before_year_from_playlist\<close>

text \<open>
  The loops at lines 199 to 231 and 297 to 330 are the same statement for statement:
  they differ in the client method called (\<open>submit\<close> below), in how a failed item is
  reported (\<open>failed\<close>) and in the wording of two messages. They are embedded once.
  The state of the loop is the world and the running count.
\<close>

text \<open>The item-by-item fallback: \<open>for item in chunk: try: ... except Exception\<close>.\<close>

fun fallback ::
  "api \<Rightarrow> ('a list \<Rightarrow> call) \<Rightarrow> ('a \<Rightarrow> msg) \<Rightarrow> 'a list \<Rightarrow> world \<times> nat \<Rightarrow> world \<times> nat" where
  "fallback sp submit failed [] s = s"
| "fallback sp submit failed (x # xs) (w, removed_count) =
     (case do_call sp (submit [x]) w of
        (Success, w1) \<Rightarrow> fallback sp submit failed xs (w1, removed_count + 1)
      | (_, w1) \<Rightarrow> fallback sp submit failed xs (print (failed x) w1, removed_count))"

text \<open>
  \<open>int(headers.get('Retry-After', '5'))\<close> after \<open>headers = getattr(e, 'headers', {}) or {}\<close>.
  The headers of the exception are those of the response, which the HTTP library keeps
  in a dict that compares keys without regard to case: a key is found when its lowercase
  form is that of \<open>Retry-After\<close>. The list holds each header once.
\<close>

definition headers_get :: "(string \<times> string) list \<Rightarrow> string \<Rightarrow> string \<Rightarrow> string" where
  "headers_get headers key fallback_value =
     (case map_of (map (\<lambda>(k, v). (lower k, v)) headers) (lower key) of
        None \<Rightarrow> fallback_value
      | Some v \<Rightarrow> v)"

definition retry_after :: "(string \<times> string) list option \<Rightarrow> int option" where
  "retry_after hs =
     (let headers = (case hs of None \<Rightarrow> [] | Some h \<Rightarrow> h) in
      py_int (headers_get headers ''Retry-After'' ''5''))"

text \<open>
  \<open>while True\<close> around one chunk. The loop is left by \<open>break\<close> (\<open>Inr\<close>), or by an
  exception raised inside a handler, which no handler of the same \<open>try\<close> catches
  (\<open>Inl\<close>); a run that stays in the loop for ever has the value \<open>None\<close>.
\<close>

partial_function (option) remove_chunk ::
  "api \<Rightarrow> ('a list \<Rightarrow> call) \<Rightarrow> ('a \<Rightarrow> msg) \<Rightarrow> 'a list \<Rightarrow> world \<times> nat
     \<Rightarrow> (py_exn \<times> world + world \<times> nat) option" where
  "remove_chunk sp submit failed chunk s =
     (case do_call sp (submit chunk) (fst s) of
        (Success, w1) \<Rightarrow> Some (Inr (w1, snd s + length chunk))
      | (Spotify_Exception http_status hs, w1) \<Rightarrow>
          if http_status = Some 429 then
            (case retry_after hs of
               None \<Rightarrow> Some (Inl (ValueError, w1))
             | Some secs \<Rightarrow>
                 (case time_sleep secs (print (Rate_limit secs) w1) of
                    Inl e \<Rightarrow> Some (Inl e)
                  | Inr w2 \<Rightarrow> remove_chunk sp submit failed chunk (w2, snd s)))
          else Some (Inr (fallback sp submit failed chunk (print Batch_error w1, snd s)))
      | (Other_Exception, w1) \<Rightarrow>
          Some (Inr (fallback sp submit failed chunk (print Unexpected_batch_error w1, snd s))))"

declare remove_chunk.simps [code]

text \<open>\<open>for chunk in _chunked_list(...)\<close>.\<close>

fun remove_chunks ::
  "api \<Rightarrow> ('a list \<Rightarrow> call) \<Rightarrow> ('a \<Rightarrow> msg) \<Rightarrow> 'a list list \<Rightarrow> world \<times> nat
     \<Rightarrow> (py_exn \<times> world + world \<times> nat) option" where
  "remove_chunks sp submit failed [] s = Some (Inr s)"
| "remove_chunks sp submit failed (chunk # chunks) s =
     (case remove_chunk sp submit failed chunk s of
        None \<Rightarrow> None
      | Some (Inl e) \<Rightarrow> Some (Inl e)
      | Some (Inr s1) \<Rightarrow> remove_chunks sp submit failed chunks s1)"

definition remove_batches ::
  "api \<Rightarrow> ('a list \<Rightarrow> call) \<Rightarrow> ('a \<Rightarrow> msg) \<Rightarrow> 'a list \<Rightarrow> nat \<Rightarrow> world
     \<Rightarrow> (py_exn \<times> world + world \<times> nat) option" where
  "remove_batches sp submit failed candidates BATCH_SIZE w =
     (case chunked_list candidates BATCH_SIZE of
        Inl e \<Rightarrow> Some (Inl (e, w))
      | Inr chunks \<Rightarrow> remove_chunks sp submit failed chunks (w, 0))"

section \<open>remove_duplicates_from_playlist\<close>

text \<open>The dicts appended to \<open>items\<close> by the scan (lines 137 to 144).\<close>

record entry =
  position :: nat
  entry_added_at :: "string option"
  entry_name :: string
  entry_artists :: string
  artist_key :: string
  entry_uri :: string

fun scan_items :: "item list \<Rightarrow> entry list \<times> nat \<Rightarrow> entry list \<times> nat" where
  "scan_items [] s = s"
| "scan_items (it # its) (items, pos) =
     (case track it of
        None \<Rightarrow> scan_items its (items, pos)
      | Some t \<Rightarrow>
          (let artist_list = map strip (artists t);
               akey = lower (join '','' artist_list)
           in scan_items its
                (items @ [\<lparr>position = pos, entry_added_at = added_at it, entry_name = name t,
                            entry_artists = join '', '' artist_list, artist_key = akey,
                            entry_uri = uri t\<rparr>],
                 pos + 1)))"

fun scan_pages :: "page list \<Rightarrow> entry list \<times> nat \<Rightarrow> entry list \<times> nat" where
  "scan_pages [] s = s"
| "scan_pages (p # ps) s = scan_pages ps (scan_items p s)"

definition scan_playlist :: "page list \<Rightarrow> entry list" where
  "scan_playlist pages = fst (scan_pages pages ([], 0))"

text \<open>
  \<open>groups.setdefault(key, []).append(it)\<close> on a dict kept as the list of its
  (key, value) pairs in insertion order.
\<close>

definition group_key :: "entry \<Rightarrow> string" where
  "group_key it = lower (strip (entry_name it)) @ ''||'' @ artist_key it"

definition setdefault_append ::
  "(string \<times> entry list) list \<Rightarrow> string \<Rightarrow> entry \<Rightarrow> (string \<times> entry list) list" where
  "setdefault_append groups key it =
     (if key \<in> set (map fst groups)
      then map (\<lambda>(k, v). if k = key then (k, v @ [it]) else (k, v)) groups
      else groups @ [(key, [it])])"

fun group_loop :: "entry list \<Rightarrow> (string \<times> entry list) list \<Rightarrow> (string \<times> entry list) list" where
  "group_loop [] groups = groups"
| "group_loop (it # its) groups = group_loop its (setdefault_append groups (group_key it) it)"

definition group_items :: "entry list \<Rightarrow> (string \<times> entry list) list" where
  "group_items items = group_loop items []"

definition duplicates :: "entry list \<Rightarrow> (string \<times> entry list) list" where
  "duplicates items = filter (\<lambda>(k, v). length v > 1) (group_items items)"

text \<open>The prompt loop of one group (lines 173 to 189); \<open>idx\<close>, \<open>i\<close> count from 1.\<close>

function choose_occurrence ::
  "entry list \<Rightarrow> world \<Rightarrow> py_exn \<times> world + occurrence option \<times> world" where
  "choose_occurrence occurrences w =
     (case occurrences of
        [] \<Rightarrow> Inl (IndexError, w)
      | first # _ \<Rightarrow>
     (case input (Choose_prompt (entry_name first) (length occurrences)) w of
        Inl e \<Rightarrow> Inl e
      | Inr (line, w1) \<Rightarrow>
          (let escolha = strip line in
           if \<not> isdigit escolha then choose_occurrence occurrences (print Invalid_input w1)
           else
             (case py_int escolha of
                None \<Rightarrow> Inl (ValueError, w1)
              | Some escolha_int \<Rightarrow>
                  if escolha_int = 0 then Inr (None, print Skipping w1)
                  else if 1 \<le> escolha_int \<and> escolha_int \<le> int (length occurrences) then
                    (let selected = occurrences ! nat (escolha_int - 1) in
                     Inr (Some \<lparr>occ_uri = entry_uri selected, positions = [position selected]\<rparr>,
                          print (Selected (position selected)) w1))
                  else choose_occurrence occurrences (print Out_of_range w1)))))"
  by pat_completeness auto
termination
  by (relation "measure (\<lambda>(occurrences, w). length (stdin w))")
     (auto simp: input_def print_def split: list.splits)

declare choose_occurrence.simps [simp del]

fun print_occurrences :: "entry list \<Rightarrow> nat \<Rightarrow> world \<Rightarrow> world" where
  "print_occurrences [] i w = w"
| "print_occurrences (occ # occs) i w =
     print_occurrences occs (i + 1)
       (print (Occurrence_line i (position occ) (entry_added_at occ) (entry_artists occ)) w)"

fun select_groups ::
  "(string \<times> entry list) list \<Rightarrow> nat \<Rightarrow> occurrence list \<Rightarrow> world
     \<Rightarrow> py_exn \<times> world + occurrence list \<times> world" where
  "select_groups [] idx to_remove_items w = Inr (to_remove_items, w)"
| "select_groups ((gkey, occurrences) # rest) idx to_remove_items w =
     (case occurrences of
        [] \<Rightarrow> Inl (IndexError, w)
      | first # _ \<Rightarrow>
          (let w1 = print (Group_header idx (entry_name first) (length occurrences)) w;
               w2 = print_occurrences occurrences 1 w1
           in case choose_occurrence occurrences w2 of
                Inl e \<Rightarrow> Inl e
              | Inr (None, w3) \<Rightarrow> select_groups rest (idx + 1) to_remove_items w3
              | Inr (Some sel, w3) \<Rightarrow>
                  select_groups rest (idx + 1) (to_remove_items @ [sel]) w3))"

definition failed_occurrence :: "occurrence \<Rightarrow> msg" where
  "failed_occurrence it = Failed_occurrence (positions it) (occ_uri it)"

definition remove_duplicates_from_playlist ::
  "api \<Rightarrow> page list \<Rightarrow> world \<Rightarrow> (py_exn \<times> world + world) option" where
  "remove_duplicates_from_playlist sp pages w =
     (let w0 = print Scanning w;
          dups = duplicates (scan_playlist pages)
      in if dups = [] then Some (Inr (print No_duplicates w0))
         else
           (case select_groups dups 1 [] (print (Found_duplicates (length dups)) w0) of
              Inl e \<Rightarrow> Some (Inl e)
            | Inr (to_remove_items, w1) \<Rightarrow>
                if to_remove_items = [] then Some (Inr (print Nothing_selected w1))
                else
                  (case remove_batches sp Remove_specific_occurrences failed_occurrence
                          to_remove_items 50 w1 of
                     None \<Rightarrow> None
                   | Some (Inl e) \<Rightarrow> Some (Inl e)
                   | Some (Inr (w2, removed_count)) \<Rightarrow>
                       Some (Inr (print (Duplicates_removed removed_count) w2)))))"

section \<open>remove_tracks_before_year_from_playlist\<close>

record match =
  match_uri :: string
  match_name :: string
  match_artists :: string
  match_release_date :: string

fun year_items :: "item list \<Rightarrow> int \<Rightarrow> match list \<Rightarrow> match list" where
  "year_items [] year_cutoff matches = matches"
| "year_items (it # its) year_cutoff matches =
     (case track it of
        None \<Rightarrow> year_items its year_cutoff matches
      | Some t \<Rightarrow>
          (case (case album t of None \<Rightarrow> None | Some a \<Rightarrow> release_date a) of
             None \<Rightarrow> year_items its year_cutoff matches
           | Some rd \<Rightarrow>
               if rd = [] then year_items its year_cutoff matches
               else
                 (case py_int (take 4 rd) of
                    None \<Rightarrow> year_items its year_cutoff matches
                  | Some release_year \<Rightarrow>
                      if release_year < year_cutoff then
                        year_items its year_cutoff
                          (matches @ [\<lparr>match_uri = uri t, match_name = name t,
                                       match_artists = join '', '' (artists t),
                                       match_release_date = rd\<rparr>])
                      else year_items its year_cutoff matches)))"

fun year_pages :: "page list \<Rightarrow> int \<Rightarrow> match list \<Rightarrow> match list" where
  "year_pages [] year_cutoff matches = matches"
| "year_pages (p # ps) year_cutoff matches = year_pages ps year_cutoff (year_items p year_cutoff matches)"

text \<open>\<open>unique_by_uri.setdefault(m['uri'], {...})\<close>, the dict again a list of pairs.\<close>

fun unique_loop :: "match list \<Rightarrow> (string \<times> match) list \<Rightarrow> (string \<times> match) list" where
  "unique_loop [] unique_by_uri = unique_by_uri"
| "unique_loop (m # ms) unique_by_uri =
     unique_loop ms
       (if match_uri m \<in> set (map fst unique_by_uri) then unique_by_uri
        else unique_by_uri @ [(match_uri m, m)])"

fun print_matches :: "(string \<times> match) list \<Rightarrow> nat \<Rightarrow> world \<Rightarrow> world" where
  "print_matches [] idx w = w"
| "print_matches ((u, info) # rest) idx w =
     print_matches rest (idx + 1)
       (print (List_line idx (match_name info) (match_artists info) (match_release_date info)) w)"

definition remove_tracks_before_year_from_playlist ::
  "api \<Rightarrow> page list \<Rightarrow> int \<Rightarrow> world \<Rightarrow> (py_exn \<times> world + world) option" where
  "remove_tracks_before_year_from_playlist sp pages year_cutoff w =
     (let w0 = print (Searching year_cutoff) w;
          matches = year_pages pages year_cutoff []
      in if matches = [] then Some (Inr (print (None_before year_cutoff) w0))
         else
           (let unique_by_uri = unique_loop matches [];
                w1 = print_matches unique_by_uri 1 (print List_header w0)
            in case input Confirm_prompt w1 of
                 Inl e \<Rightarrow> Some (Inl e)
               | Inr (line, w2) \<Rightarrow>
                   if lower (strip line) \<noteq> ''s'' then Some (Inr (print Cancelled w2))
                   else
                     (let uris_to_remove = map fst unique_by_uri in
                      if uris_to_remove = [] then Some (Inr (print Nothing_to_remove w2))
                      else
                        (case remove_batches sp Remove_all_occurrences Failed_uri
                                uris_to_remove 100 w2 of
                           None \<Rightarrow> None
                         | Some (Inl e) \<Rightarrow> Some (Inl e)
                         | Some (Inr (w3, removed_total)) \<Rightarrow>
                             Some (Inr (print (Tracks_removed removed_total) w3))))))"

section \<open>The scans, stated on the playlist\<close>

text \<open>
  The items of a page whose track is not null, in order, each with its \<open>added_at\<close>;
  the tracks of a playlist; and the entry the duplicate scan builds for a track that
  it meets at a given position.
\<close>

fun non_null :: "item list \<Rightarrow> (string option \<times> track) list" where
  "non_null [] = []"
| "non_null (it # its) =
     (case track it of None \<Rightarrow> non_null its | Some t \<Rightarrow> (added_at it, t) # non_null its)"

definition tracks_of :: "page list \<Rightarrow> track list" where
  "tracks_of pages = map snd (non_null (concat pages))"

definition entry_of :: "nat \<times> string option \<times> track \<Rightarrow> entry" where
  "entry_of x = (case x of (pos, added, t) \<Rightarrow>
     \<lparr>position = pos, entry_added_at = added, entry_name = name t,
      entry_artists = join '', '' (map strip (artists t)),
      artist_key = lower (join '','' (map strip (artists t))), entry_uri = uri t\<rparr>)"

text \<open>
  The year criterion in the words of the specification: a track matches when its release
  date is present, the first four characters of the date parse as an integer, and that
  year is strictly less than the cutoff.
\<close>

definition YearCutoffMatch :: "track \<Rightarrow> int \<Rightarrow> bool" where
  "YearCutoffMatch t cutoffYear =
     (case album t of
        None \<Rightarrow> False
      | Some a \<Rightarrow>
          (case release_date a of
             None \<Rightarrow> False
           | Some rd \<Rightarrow>
               (case py_int (take 4 rd) of
                  None \<Rightarrow> False
                | Some releaseYear \<Rightarrow> releaseYear < cutoffYear)))"

text \<open>The dict the year scan appends for a matching track.\<close>

definition match_of :: "track \<Rightarrow> match" where
  "match_of t =
     \<lparr>match_uri = uri t, match_name = name t, match_artists = join '', '' (artists t),
      match_release_date =
        (case album t of
           None \<Rightarrow> []
         | Some a \<Rightarrow> (case release_date a of None \<Rightarrow> [] | Some rd \<Rightarrow> rd))\<rparr>"

text \<open>The world a flow ends in, whether it returns or raises.\<close>

definition outcome_world :: "py_exn \<times> world + world \<Rightarrow> world" where
  "outcome_world r = (case r of Inl (e, w) \<Rightarrow> w | Inr w \<Rightarrow> w)"


text \<open>The world the removal loop ends in, whether it completes or raises.\<close>

definition batch_world :: "py_exn \<times> world + world \<times> nat \<Rightarrow> world" where
  "batch_world r = (case r of Inl (e, w) \<Rightarrow> w | Inr s \<Rightarrow> fst s)"


section \<open>Inputs for the concrete runs\<close>

definition track_item :: "string \<Rightarrow> string list \<Rightarrow> string \<Rightarrow> string option \<Rightarrow> item" where
  "track_item n as u rd =
     \<lparr>added_at = None,
      track = Some \<lparr>name = n, artists = as, uri = u, album = Some \<lparr>release_date = rd\<rparr>\<rparr>\<rparr>"

definition unavailable_item :: item where
  "unavailable_item = \<lparr>added_at = None, track = None\<rparr>"

definition accepting_clock :: "int list \<Rightarrow> int \<Rightarrow> bool" where
  "accepting_clock h secs = True"

definition fresh_world :: "string list \<Rightarrow> world" where
  "fresh_world lines =
     \<lparr>calls = [], slept = [], printed = [], stdin = lines, clock = accepting_clock\<rparr>"

definition always_success :: api where
  "always_success h c = Success"

definition song_twice_pages :: "page list" where
  "song_twice_pages =
     [[track_item ''Song'' [''A''] ''u1'' (Some ''2008-03-01''), unavailable_item],
      [],
      [track_item ''Song'' [''A''] ''u1'' (Some ''2008-03-01'')]]"

definition reject_first :: api where
  "reject_first h c = (if h = [] then Spotify_Exception (Some 400) None else Success)"

definition dated_pages :: "page list" where
  "dated_pages =
     [[track_item ''Old'' [''A''] ''u1'' (Some ''2008-03-01''),
       track_item ''Undated'' [''A''] ''u2'' None,
       track_item ''Odd'' [''A''] ''u3'' (Some ''unknown'')],
      [track_item ''New'' [''A''] ''u4'' (Some ''2015''),
       unavailable_item,
       track_item ''Old'' [''A''] ''u1'' (Some ''2008-03-01'')]]"

definition item_u2_fails :: api where
  "item_u2_fails h c =
     (case c of
        Remove_all_occurrences us \<Rightarrow>
          if us = [''u2''] then Other_Exception
          else if length us = 1 then Success
          else Spotify_Exception (Some 400) None
      | Remove_specific_occurrences os \<Rightarrow> Success)"

definition always_rejecting :: api where
  "always_rejecting h c = Spotify_Exception (Some 400) None"

definition two_tracks_pages :: "page list" where
  "two_tracks_pages =
     [[track_item ''One'' [''A''] ''u1'' None], [track_item ''Two'' [''A'', ''B''] ''u2'' None]]"

definition numbered_uri :: "nat \<Rightarrow> string" where
  "numbered_uri i = ''u'' @ replicate i (CHR ''x'')"

definition many_tracks :: "nat \<Rightarrow> page" where
  "many_tracks n = map (\<lambda>i. track_item ''T'' [''A''] (numbered_uri i) None) [0..<n]"



definition limited_twice :: api where
  "limited_twice h c =
     (if length h = 0 then Spotify_Exception (Some 429) (Some [(''retry-after'', ''3'')])
      else if length h = 1 then Spotify_Exception (Some 429) None
      else Success)"

definition always_limited :: api where
  "always_limited h c = Spotify_Exception (Some 429) None"

definition limited_with_date :: api where
  "limited_with_date h c =
     (if h = [] then
        Spotify_Exception (Some 429) (Some [(''Retry-After'', ''Wed, 21 Oct 2015 07:28:00 GMT'')])
      else Success)"

section \<open>Lemmas on the builtins and the scans\<close>

lemmas string_defs = lower_def lower_char_def strip_def is_space_def is_digit_def isdigit_def
  digit_val_def is_space_int_def int_unsigned_def py_int_def
lemmas fixture_defs = track_item_def unavailable_item_def fresh_world_def always_success_def
  accepting_clock_def

lemma non_null_append: "non_null (xs @ ys) = non_null xs @ non_null ys"
  by (induction xs) (auto split: option.splits)

lemma scan_items_eq:
  "scan_items its (items, pos) =
     (items @ map entry_of (enumerate pos (non_null its)), pos + length (non_null its))"
  by (induction its arbitrary: items pos) (auto simp: entry_of_def Let_def split: option.splits)

lemma scan_pages_eq:
  "scan_pages pages (items, pos) =
     (items @ map entry_of (enumerate pos (non_null (concat pages))),
      pos + length (non_null (concat pages)))"
  by (induction pages arbitrary: items pos)
     (auto simp: scan_items_eq non_null_append enumerate_append_eq)

lemma scan_playlist_eq:
  "scan_playlist pages = map entry_of (enumerate 0 (non_null (concat pages)))"
  by (simp add: scan_playlist_def scan_pages_eq)

lemma fromkeys_acc_set: "set (fromkeys_acc keys xs) = set keys \<union> set xs"
  by (induction xs arbitrary: keys) auto

lemma fromkeys_acc_distinct: "distinct keys \<Longrightarrow> distinct (fromkeys_acc keys xs)"
  by (induction xs arbitrary: keys) auto


lemma dict_fromkeys_distinct: "distinct (dict_fromkeys xs)"
  by (simp add: dict_fromkeys_def fromkeys_acc_distinct)

lemma dict_fromkeys_set: "set (dict_fromkeys xs) = set xs"
  by (simp add: dict_fromkeys_def fromkeys_acc_set)

lemma dict_fromkeys_length: "length (dict_fromkeys xs) = card (set xs)"
  by (metis dict_fromkeys_distinct dict_fromkeys_set distinct_card)

lemma dict_fromkeys_shorter: "\<not> distinct xs \<Longrightarrow> length (dict_fromkeys xs) < length xs"
  by (metis dict_fromkeys_length card_distinct card_length le_neq_implies_less)

lemma dict_fromkeys_id: "distinct xs \<Longrightarrow> dict_fromkeys xs = xs"
proof -
  have "distinct (keys @ xs) \<Longrightarrow> fromkeys_acc keys xs = keys @ xs" for keys
    by (induction xs arbitrary: keys) auto
  from this[of "[]"] show "distinct xs \<Longrightarrow> dict_fromkeys xs = xs" by (simp add: dict_fromkeys_def)
qed

lemma music_items_eq:
  "music_items its tn acc = acc @ map uri (filter (\<lambda>t. lower (name t) = lower tn) (map snd (non_null its)))"
  by (induction its arbitrary: acc) (auto split: option.splits)

lemma music_pages_eq:
  "music_pages pages tn acc = acc @ map uri (filter (\<lambda>t. lower (name t) = lower tn) (tracks_of pages))"
  by (induction pages arbitrary: acc) (auto simp: music_items_eq tracks_of_def non_null_append)

lemma artist_items_eq:
  "artist_items its an acc = acc @ map uri (filter (\<lambda>t. list_ex (\<lambda>a. lower a = lower an) (artists t)) (map snd (non_null its)))"
  by (induction its arbitrary: acc) (auto split: option.splits)

lemma artist_pages_eq:
  "artist_pages pages an acc = acc @ map uri (filter (\<lambda>t. list_ex (\<lambda>a. lower a = lower an) (artists t)) (tracks_of pages))"
  by (induction pages arbitrary: acc) (auto simp: artist_items_eq tracks_of_def non_null_append)

section \<open>Lemmas on chunking and the batch loop\<close>

lemma chunks_from_concat: "0 < n \<Longrightarrow> concat (chunks_from lst n i) = drop i lst"
proof (induction lst n i rule: chunks_from.induct)
  case (1 lst n i)
  show ?case
  proof (cases "length lst \<le> i")
    case True
    then show ?thesis by (subst chunks_from.simps) simp
  next
    case False
    with 1 have "concat (chunks_from lst n (i + n)) = drop (i + n) lst" by simp
    moreover have "take n (drop i lst) @ drop (i + n) lst = drop i lst"
      by (metis add.commute append_take_drop_id drop_drop)
    ultimately show ?thesis using False 1(2) by (subst chunks_from.simps) simp
  qed
qed

lemma chunks_from_length: "c \<in> set (chunks_from lst n i) \<Longrightarrow> c \<noteq> [] \<and> length c \<le> n"
proof (induction lst n i rule: chunks_from.induct)
  case (1 lst n i)
  show ?case
  proof (cases "n = 0 \<or> length lst \<le> i")
    case True
    with 1(2) show ?thesis by (subst (asm) chunks_from.simps) simp
  next
    case False
    with 1(2) have "c = take n (drop i lst) \<or> c \<in> set (chunks_from lst n (i + n))"
      by (subst (asm) chunks_from.simps) simp
    with 1(1) False show ?thesis by auto
  qed
qed

lemma chunked_list_Inr:
  "0 < n \<Longrightarrow> \<exists>chunks. chunked_list lst n = Inr chunks \<and> concat chunks = lst
      \<and> (\<forall>c \<in> set chunks. c \<noteq> [] \<and> length c \<le> n)"
  by (simp add: chunked_list_def chunks_from_concat chunks_from_length)

lemma remove_chunk_success:
  "sp (calls w) (submit chunk) = Success \<Longrightarrow>
   remove_chunk sp submit failed chunk (w, n) =
     Some (Inr (w\<lparr>calls := calls w @ [submit chunk]\<rparr>, n + length chunk))"
  by (subst remove_chunk.simps) (simp add: do_call_def)

lemma remove_chunk_rejected:
  "sp (calls w) (submit chunk) = Spotify_Exception st hs \<Longrightarrow> st \<noteq> Some 429 \<Longrightarrow>
   remove_chunk sp submit failed chunk (w, n) =
     Some (Inr (fallback sp submit failed chunk
                  (print Batch_error (w\<lparr>calls := calls w @ [submit chunk]\<rparr>), n)))"
  by (subst remove_chunk.simps) (simp add: do_call_def)

lemma remove_chunk_other:
  "sp (calls w) (submit chunk) = Other_Exception \<Longrightarrow>
   remove_chunk sp submit failed chunk (w, n) =
     Some (Inr (fallback sp submit failed chunk
                  (print Unexpected_batch_error (w\<lparr>calls := calls w @ [submit chunk]\<rparr>), n)))"
  by (subst remove_chunk.simps) (simp add: do_call_def)

lemma remove_chunk_rate_limited:
  assumes "sp (calls w) (submit chunk) = Spotify_Exception (Some 429) hs"
    and "retry_after hs = Some secs" and "0 \<le> secs" and "secs \<le> 9223372036"
    and "clock w (slept w) secs"
  shows "remove_chunk sp submit failed chunk (w, n) =
         remove_chunk sp submit failed chunk
           (w\<lparr>calls := calls w @ [submit chunk], printed := printed w @ [Rate_limit secs],
              slept := slept w @ [secs]\<rparr>, n)"
  using assms
  by (subst remove_chunk.simps) (simp add: do_call_def time_sleep_def print_def)

lemma remove_chunk_unparseable:
  assumes "sp (calls w) (submit chunk) = Spotify_Exception (Some 429) hs"
    and "retry_after hs = None"
  shows "remove_chunk sp submit failed chunk (w, n) =
         Some (Inl (ValueError, w\<lparr>calls := calls w @ [submit chunk]\<rparr>))"
  using assms
  by (subst remove_chunk.simps) (simp add: do_call_def)

lemma remove_chunk_retries:
  assumes "\<And>i. i < k \<Longrightarrow>
      sp (calls w @ replicate i (submit chunk)) (submit chunk) = Spotify_Exception (Some 429) (hs i)
      \<and> retry_after (hs i) = Some (d i) \<and> 0 \<le> d i \<and> d i \<le> 9223372036
      \<and> clock w (slept w @ map d [0..<i]) (d i)"
  shows "remove_chunk sp submit failed chunk (w, n) =
         remove_chunk sp submit failed chunk
           (w\<lparr>calls := calls w @ replicate k (submit chunk),
              printed := printed w @ map (\<lambda>i. Rate_limit (d i)) [0..<k],
              slept := slept w @ map d [0..<k]\<rparr>, n)"
  using assms
proof (induction k)
  case 0
  then show ?case by simp
next
  case (Suc k)
  let ?wk = "w\<lparr>calls := calls w @ replicate k (submit chunk),
              printed := printed w @ map (\<lambda>i. Rate_limit (d i)) [0..<k],
              slept := slept w @ map d [0..<k]\<rparr>"
  have "remove_chunk sp submit failed chunk (w, n) = remove_chunk sp submit failed chunk (?wk, n)"
    using Suc by simp
  also have "\<dots> = remove_chunk sp submit failed chunk
           (?wk\<lparr>calls := calls ?wk @ [submit chunk], printed := printed ?wk @ [Rate_limit (d k)],
              slept := slept ?wk @ [d k]\<rparr>, n)"
    using Suc.prems[of k] by (intro remove_chunk_rate_limited[where hs = "hs k"]) simp_all
  finally show ?case by (simp add: replicate_append_same)
qed

lemma remove_chunk_never_gives_up_aux:
  assumes "remove_chunk sp submit failed chunk s = Some r"
  shows "\<not> ((\<forall>h. \<exists>hs secs. sp h (submit chunk) = Spotify_Exception (Some 429) hs
            \<and> retry_after hs = Some secs \<and> 0 \<le> secs \<and> secs \<le> 9223372036)
          \<and> (\<forall>h secs. clock (fst s) h secs))"
proof (induction rule: remove_chunk.raw_induct[OF _ assms])
  case (1 remove_chunk' sp submit failed chunk s r)
  note IH = 1(1) and body = 1(2)
  show ?case
  proof
    assume always: "(\<forall>h. \<exists>hs secs. sp h (submit chunk) = Spotify_Exception (Some 429) hs
            \<and> retry_after hs = Some secs \<and> 0 \<le> secs \<and> secs \<le> 9223372036)
          \<and> (\<forall>h secs. clock (fst s) h secs)"
    then obtain hs secs where
      "sp (calls (fst s)) (submit chunk) = Spotify_Exception (Some 429) hs"
      "retry_after hs = Some secs" "0 \<le> secs" "secs \<le> 9223372036"
      by blast
    with body always obtain s' where
      rec: "remove_chunk' sp submit failed chunk s' = Some r"
      and same: "clock (fst s') = clock (fst s)"
      by (auto simp: do_call_def time_sleep_def print_def)
    from same always have "\<forall>h secs. clock (fst s') h secs" by simp
    with IH[OF rec] always show False by blast
  qed
qed

lemma remove_chunk_never_gives_up:
  assumes "\<forall>h. \<exists>hs secs. sp h (submit chunk) = Spotify_Exception (Some 429) hs
            \<and> retry_after hs = Some secs \<and> 0 \<le> secs \<and> secs \<le> 9223372036"
    and "\<forall>h secs. clock (fst s) h secs"
  shows "remove_chunk sp submit failed chunk s = None"
proof (cases "remove_chunk sp submit failed chunk s")
  case None
  then show ?thesis .
next
  case (Some r)
  from remove_chunk_never_gives_up_aux[OF this] assms show ?thesis by blast
qed

lemma fallback_count:
  "snd s \<le> snd (fallback sp submit failed xs s) \<and> snd (fallback sp submit failed xs s) \<le> snd s + length xs"
proof (induction xs arbitrary: s)
  case Nil
  then show ?case by simp
next
  case (Cons x xs)
  obtain w n where s: "s = (w, n)" by (cases s)
  show ?case
  proof (cases "sp (calls w) (submit [x]) = Success")
    case True
    then have "fallback sp submit failed (x # xs) s
        = fallback sp submit failed xs (w\<lparr>calls := calls w @ [submit [x]]\<rparr>, n + 1)"
      by (simp add: s do_call_def)
    with Cons[of "(w\<lparr>calls := calls w @ [submit [x]]\<rparr>, n + 1)"] s show ?thesis by simp
  next
    case False
    then have "fallback sp submit failed (x # xs) s
        = fallback sp submit failed xs (print (failed x) (w\<lparr>calls := calls w @ [submit [x]]\<rparr>), n)"
      by (cases "sp (calls w) (submit [x])") (simp_all add: s do_call_def)
    with Cons[of "(print (failed x) (w\<lparr>calls := calls w @ [submit [x]]\<rparr>), n)"] s show ?thesis by simp
  qed
qed

lemma remove_chunk_count:
  assumes "remove_chunk sp submit failed chunk s = Some r"
  shows "\<forall>s'. r = Inr s' \<longrightarrow> snd s \<le> snd s' \<and> snd s' \<le> snd s + length chunk"
proof (induction rule: remove_chunk.raw_induct[OF _ assms])
  case (1 remove_chunk' sp submit failed chunk s r)
  note IH = 1(1) and body = 1(2)
  show ?case
  proof (intro allI impI)
    fix s' assume r: "r = Inr s'"
    show "snd s \<le> snd s' \<and> snd s' \<le> snd s + length chunk"
    proof (cases "sp (calls (fst s)) (submit chunk)")
      case Success
      with body r show ?thesis by (auto simp: do_call_def)
    next
      case (Spotify_Exception st hs)
      show ?thesis
      proof (cases "st = Some 429")
        case True
        with body Spotify_Exception r obtain w2 where
          "remove_chunk' sp submit failed chunk (w2, snd s) = Some (Inr s')"
          by (auto simp: do_call_def split: option.splits sum.splits)
        from IH[OF this] show ?thesis by simp
      next
        case False
        with body Spotify_Exception r have
          "s' = fallback sp submit failed chunk
                  (print Batch_error ((fst s)\<lparr>calls := calls (fst s) @ [submit chunk]\<rparr>), snd s)"
          by (auto simp: do_call_def)
        with fallback_count[of "(print Batch_error ((fst s)\<lparr>calls := calls (fst s) @ [submit chunk]\<rparr>), snd s)"
              sp submit failed chunk]
        show ?thesis by simp
      qed
    next
      case Other_Exception
      with body r have
        "s' = fallback sp submit failed chunk
                (print Unexpected_batch_error ((fst s)\<lparr>calls := calls (fst s) @ [submit chunk]\<rparr>), snd s)"
        by (auto simp: do_call_def)
      with fallback_count[of "(print Unexpected_batch_error ((fst s)\<lparr>calls := calls (fst s) @ [submit chunk]\<rparr>), snd s)"
            sp submit failed chunk]
      show ?thesis by simp
    qed
  qed
qed

lemma remove_chunks_count:
  "remove_chunks sp submit failed chunks s = Some (Inr s') \<Longrightarrow>
   snd s \<le> snd s' \<and> snd s' \<le> snd s + length (concat chunks)"
proof (induction chunks arbitrary: s)
  case Nil
  then show ?case by simp
next
  case (Cons chunk chunks)
  from Cons.prems obtain s1 where
    a: "remove_chunk sp submit failed chunk s = Some (Inr s1)"
    and b: "remove_chunks sp submit failed chunks s1 = Some (Inr s')"
    by (auto split: option.splits sum.splits)
  from remove_chunk_count[OF a] Cons.IH[OF b] show ?case by auto
qed

lemma remove_batches_count:
  assumes "remove_batches sp submit failed candidates B w = Some (Inr (w', n))"
  shows "n \<le> length candidates"
proof (cases "B = 0")
  case True
  with assms show ?thesis by (simp add: remove_batches_def chunked_list_def)
next
  case False
  with assms have "remove_chunks sp submit failed (chunks_from candidates B 0) (w, 0) = Some (Inr (w', n))"
    by (simp add: remove_batches_def chunked_list_def)
  from remove_chunks_count[OF this] False show ?thesis by (simp add: chunks_from_concat)
qed

section \<open>Lemmas on the flows\<close>

lemmas run_defs = remove_duplicates_from_playlist_def remove_tracks_before_year_from_playlist_def
  remove_batches_def chunked_list_def chunks_from.simps remove_chunk.simps do_call_def print_def
  input_def time_sleep_def retry_after_def headers_get_def choose_occurrence.simps duplicates_def group_items_def
  setdefault_append_def group_key_def scan_playlist_def failed_occurrence_def Let_def

lemma py_int_Nil: "py_int [] = None"
  by (simp add: py_int_def)

lemma year_items_eq:
  "year_items its y ms =
     ms @ map match_of (filter (\<lambda>t. YearCutoffMatch t y) (map snd (non_null its)))"
  by (induction its arbitrary: ms)
     (auto simp: YearCutoffMatch_def match_of_def py_int_Nil split: option.splits)

lemma year_pages_eq:
  "year_pages pages y ms =
     ms @ map match_of (filter (\<lambda>t. YearCutoffMatch t y) (tracks_of pages))"
  by (induction pages arbitrary: ms) (auto simp: year_items_eq tracks_of_def non_null_append)

lemma unique_loop_keys:
  "map fst (unique_loop ms d) = fromkeys_acc (map fst d) (map match_uri ms)"
  by (induction ms arbitrary: d) auto

lemma last_print: "last (printed (print m w)) = m"
  by (simp add: print_def)

lemma duplicates_flow_count:
  assumes "remove_duplicates_from_playlist sp pages w = Some (Inr w')"
    and "last (printed w') = Duplicates_removed n"
  shows "\<exists>to_remove_items w1.
           select_groups (duplicates (scan_playlist pages)) 1 []
             (print (Found_duplicates (length (duplicates (scan_playlist pages))))
                (print Scanning w)) = Inr (to_remove_items, w1)
           \<and> n \<le> length to_remove_items"
  using assms
  by (auto simp: remove_duplicates_from_playlist_def Let_def last_print
           split: if_splits sum.splits option.splits prod.splits
           dest: remove_batches_count)

lemma year_flow_count:
  assumes "remove_tracks_before_year_from_playlist sp pages y w = Some (Inr w')"
    and "last (printed w') = Tracks_removed n"
  shows "n \<le> length (map fst (unique_loop (year_pages pages y []) []))"
  using assms
  by (auto simp: remove_tracks_before_year_from_playlist_def Let_def last_print
           split: if_splits sum.splits option.splits prod.splits
           dest: remove_batches_count)

lemma print_matches_calls: "calls (print_matches d idx w) = calls w"
  by (induction d idx w rule: print_matches.induct) (auto simp: print_def)

lemma print_matches_stdin: "stdin (print_matches d idx w) = stdin w"
  by (induction d idx w rule: print_matches.induct) (auto simp: print_def)

lemma year_flow_not_confirmed:
  assumes "stdin w = line # rest" and "lower (strip line) \<noteq> ''s''"
  shows "\<exists>w'. remove_tracks_before_year_from_playlist sp pages y w = Some (Inr w')
           \<and> calls w' = calls w
           \<and> (year_pages pages y [] \<noteq> [] \<longrightarrow> last (printed w') = Cancelled)"
  using assms
  by (simp add: remove_tracks_before_year_from_playlist_def Let_def input_def print_def
        print_matches_calls print_matches_stdin)

lemma year_flow_calls_only_if_confirmed:
  assumes "remove_tracks_before_year_from_playlist sp pages y w = Some r"
    and "calls (outcome_world r) \<noteq> calls w"
  shows "\<exists>line rest. stdin w = line # rest \<and> lower (strip line) = ''s''"
  using assms
  by (auto simp: remove_tracks_before_year_from_playlist_def Let_def input_def print_def
        print_matches_calls print_matches_stdin outcome_world_def
        split: if_splits list.splits)

lemma artist_flow_immediate:
  "stdin (remove_artist_from_playlist sp pages artist_name w) = stdin w
   \<and> (artist_pages pages artist_name [] \<noteq> [] \<longrightarrow>
        calls (remove_artist_from_playlist sp pages artist_name w) =
          calls w @ [Remove_all_occurrences (artist_pages pages artist_name [])])"
  by (auto simp: remove_artist_from_playlist_def Let_def do_call_def print_def
        split: response.splits)

lemma music_flow_immediate:
  "stdin (remove_music_from_playlist sp pages track_name w) = stdin w
   \<and> (music_pages pages track_name [] \<noteq> [] \<longrightarrow>
        calls (remove_music_from_playlist sp pages track_name w) =
          calls w @ [Remove_all_occurrences (dict_fromkeys (music_pages pages track_name []))])"
  by (auto simp: remove_music_from_playlist_def Let_def do_call_def print_def
        split: response.splits)

lemma artist_many:
  "0 < n \<Longrightarrow>
   calls (remove_artist_from_playlist sp [many_tracks n] ''a'' w) =
     calls w @ [Remove_all_occurrences (map numbered_uri [0..<n])]"
proof -
  assume "0 < n"
  have "map snd (non_null (many_tracks n)) =
          map (\<lambda>i. \<lparr>name = ''T'', artists = [''A''], uri = numbered_uri i,
                      album = Some \<lparr>release_date = None\<rparr>\<rparr>) [0..<n]"
    unfolding many_tracks_def by (induction n) (auto simp: non_null_append track_item_def)
  then have "artist_pages [many_tracks n] ''a'' [] = map numbered_uri [0..<n]"
    by (simp add: artist_pages_eq tracks_of_def string_defs comp_def filter_map)
  with \<open>0 < n\<close> show ?thesis
    by (auto simp: remove_artist_from_playlist_def Let_def do_call_def print_def split: response.splits)
qed






lemma inj_numbered_uri: "inj numbered_uri"
  by (rule injI) (simp add: numbered_uri_def)

lemma remove_chunk_retries_ex:
  assumes "\<forall>i<k. \<exists>hs.
      sp (calls w @ replicate i (submit chunk)) (submit chunk) = Spotify_Exception (Some 429) hs
      \<and> retry_after hs = Some (d i) \<and> 0 \<le> d i \<and> d i \<le> 9223372036
      \<and> clock w (slept w @ map d [0..<i]) (d i)"
  shows "remove_chunk sp submit failed chunk (w, n) =
         remove_chunk sp submit failed chunk
           (w\<lparr>calls := calls w @ replicate k (submit chunk),
              printed := printed w @ map (\<lambda>i. Rate_limit (d i)) [0..<k],
              slept := slept w @ map d [0..<k]\<rparr>, n)"
proof -
  from assms obtain hs where
    "\<forall>i<k. sp (calls w @ replicate i (submit chunk)) (submit chunk) = Spotify_Exception (Some 429) (hs i)
      \<and> retry_after (hs i) = Some (d i) \<and> 0 \<le> d i \<and> d i \<le> 9223372036
      \<and> clock w (slept w @ map d [0..<i]) (d i)"
    by metis
  then show ?thesis by (intro remove_chunk_retries [where hs = hs]) blast
qed

lemma fallback_calls:
  "calls (fst (fallback sp submit failed xs (w, n))) = calls w @ map (\<lambda>x. submit [x]) xs"
proof (induction xs arbitrary: w n)
  case Nil
  then show ?case by simp
next
  case (Cons x xs)
  show ?case
    by (cases "sp (calls w) (submit [x])") (simp_all add: do_call_def print_def Cons)
qed

lemma remove_chunk_calls:
  assumes "remove_chunk sp submit failed chunk s = Some r"
  shows "\<exists>k. calls (batch_world r) = calls (fst s) @ replicate k (submit chunk)
           \<or> calls (batch_world r) =
              calls (fst s) @ replicate k (submit chunk) @ map (\<lambda>x. submit [x]) chunk"
proof (induction rule: remove_chunk.raw_induct[OF _ assms])
  case (1 remove_chunk' sp submit failed chunk s r)
  note IH = 1(1) and body = 1(2)
  let ?w1 = "(fst s)\<lparr>calls := calls (fst s) @ [submit chunk]\<rparr>"
  show ?case
  proof (cases "sp (calls (fst s)) (submit chunk)")
    case Success
    with body have "calls (batch_world r) = calls (fst s) @ replicate 1 (submit chunk)"
      by (auto simp: do_call_def batch_world_def)
    then show ?thesis by blast
  next
    case (Spotify_Exception st hs)
    show ?thesis
    proof (cases "st = Some 429")
      case True
      show ?thesis
      proof (cases "retry_after hs")
        case None
        with body Spotify_Exception True
        have "calls (batch_world r) = calls (fst s) @ replicate 1 (submit chunk)"
          by (auto simp: do_call_def batch_world_def)
        then show ?thesis by blast
      next
        case (Some secs)
        show ?thesis
        proof (cases "time_sleep secs (print (Rate_limit secs) ?w1)")
          case (Inl e)
          with body Spotify_Exception True Some
          have "calls (batch_world r) = calls (fst s) @ replicate 1 (submit chunk)"
            by (auto simp: do_call_def batch_world_def time_sleep_def print_def split: if_splits)
          then show ?thesis by blast
        next
          case (Inr w2)
          with body Spotify_Exception True Some
          have rec: "remove_chunk' sp submit failed chunk (w2, snd s) = Some r"
            by (auto simp: do_call_def)
          from Inr have w2: "calls w2 = calls (fst s) @ [submit chunk]"
            by (auto simp: time_sleep_def print_def split: if_splits)
          from IH[OF rec] obtain k where
            "calls (batch_world r) = calls w2 @ replicate k (submit chunk)
             \<or> calls (batch_world r) =
                calls w2 @ replicate k (submit chunk) @ map (\<lambda>x. submit [x]) chunk"
            by auto
          then have "calls (batch_world r) = calls (fst s) @ replicate (Suc k) (submit chunk)
             \<or> calls (batch_world r) =
                calls (fst s) @ replicate (Suc k) (submit chunk) @ map (\<lambda>x. submit [x]) chunk"
            by (simp add: w2)
          then show ?thesis by blast
        qed
      qed
    next
      case False
      with body Spotify_Exception
      have "r = Inr (fallback sp submit failed chunk (print Batch_error ?w1, snd s))"
        by (auto simp: do_call_def)
      then have "calls (batch_world r) =
          calls (fst s) @ replicate 1 (submit chunk) @ map (\<lambda>x. submit [x]) chunk"
        using fallback_calls[of sp submit failed chunk "print Batch_error ?w1" "snd s"]
        by (simp add: batch_world_def print_def)
      then show ?thesis by blast
    qed
  next
    case Other_Exception
    with body
    have "r = Inr (fallback sp submit failed chunk (print Unexpected_batch_error ?w1, snd s))"
      by (auto simp: do_call_def)
    then have "calls (batch_world r) =
        calls (fst s) @ replicate 1 (submit chunk) @ map (\<lambda>x. submit [x]) chunk"
      using fallback_calls[of sp submit failed chunk "print Unexpected_batch_error ?w1" "snd s"]
      by (simp add: batch_world_def print_def)
    then show ?thesis by blast
  qed
qed

lemma calls_within_mono:
  assumes "\<forall>c \<in> set cs. \<exists>xs. c = submit xs \<and> set xs \<subseteq> A \<and> length xs \<le> m"
    and "A \<subseteq> A'" and "m \<le> m'"
  shows "\<forall>c \<in> set cs. \<exists>xs. c = submit xs \<and> set xs \<subseteq> A' \<and> length xs \<le> m'"
proof
  fix c assume "c \<in> set cs"
  with assms(1) obtain xs where "c = submit xs" "set xs \<subseteq> A" "length xs \<le> m" by blast
  with assms(2,3) have "c = submit xs \<and> set xs \<subseteq> A' \<and> length xs \<le> m'" by auto
  then show "\<exists>xs. c = submit xs \<and> set xs \<subseteq> A' \<and> length xs \<le> m'" ..
qed

lemma remove_chunk_calls_within:
  assumes "remove_chunk sp submit failed chunk s = Some r"
  shows "\<exists>cs. calls (batch_world r) = calls (fst s) @ cs
           \<and> (\<forall>c \<in> set cs. \<exists>xs. c = submit xs \<and> set xs \<subseteq> set chunk \<and> length xs \<le> max 1 (length chunk))"
proof -
  from remove_chunk_calls[OF assms] obtain k where
    k: "calls (batch_world r) = calls (fst s) @ replicate k (submit chunk)
           \<or> calls (batch_world r) =
              calls (fst s) @ replicate k (submit chunk) @ map (\<lambda>x. submit [x]) chunk"
    by blast
  have a: "\<forall>c \<in> set (replicate k (submit chunk)).
            \<exists>xs. c = submit xs \<and> set xs \<subseteq> set chunk \<and> length xs \<le> max 1 (length chunk)"
  proof
    fix c assume "c \<in> set (replicate k (submit chunk))"
    then have "c = submit chunk \<and> set chunk \<subseteq> set chunk \<and> length chunk \<le> max 1 (length chunk)"
      by simp
    then show "\<exists>xs. c = submit xs \<and> set xs \<subseteq> set chunk \<and> length xs \<le> max 1 (length chunk)" ..
  qed
  have b: "\<forall>c \<in> set (map (\<lambda>x. submit [x]) chunk).
            \<exists>xs. c = submit xs \<and> set xs \<subseteq> set chunk \<and> length xs \<le> max 1 (length chunk)"
  proof
    fix c assume "c \<in> set (map (\<lambda>x. submit [x]) chunk)"
    then obtain x where "x \<in> set chunk" "c = submit [x]" by auto
    then have "c = submit [x] \<and> set [x] \<subseteq> set chunk \<and> length [x] \<le> max 1 (length chunk)"
      by simp
    then show "\<exists>xs. c = submit xs \<and> set xs \<subseteq> set chunk \<and> length xs \<le> max 1 (length chunk)" ..
  qed
  from k show ?thesis
  proof
    assume "calls (batch_world r) = calls (fst s) @ replicate k (submit chunk)"
    with a show ?thesis by blast
  next
    assume "calls (batch_world r) =
              calls (fst s) @ replicate k (submit chunk) @ map (\<lambda>x. submit [x]) chunk"
    moreover from a b have "\<forall>c \<in> set (replicate k (submit chunk) @ map (\<lambda>x. submit [x]) chunk).
            \<exists>xs. c = submit xs \<and> set xs \<subseteq> set chunk \<and> length xs \<le> max 1 (length chunk)"
      by (simp only: set_append ball_Un simp_thms)
    ultimately show ?thesis by blast
  qed
qed

lemma remove_chunks_calls_within:
  assumes "remove_chunks sp submit failed chunks s = Some r"
    and "\<forall>chunk \<in> set chunks. chunk \<noteq> [] \<and> length chunk \<le> B"
  shows "\<exists>cs. calls (batch_world r) = calls (fst s) @ cs
           \<and> (\<forall>c \<in> set cs. \<exists>xs. c = submit xs \<and> set xs \<subseteq> set (concat chunks) \<and> length xs \<le> B)"
  using assms
proof (induction chunks arbitrary: s)
  case Nil
  then have "calls (batch_world r) = calls (fst s) @ []"
    by (auto simp: batch_world_def)
  then show ?case by (intro exI[of _ "[]"]) simp
next
  case (Cons chunk chunks)
  from Cons.prems(2) have len: "chunk \<noteq> []" "length chunk \<le> B" by auto
  then have m: "max 1 (length chunk) \<le> B" by (cases chunk) auto
  from Cons.prems(1) obtain r1 where r1: "remove_chunk sp submit failed chunk s = Some r1"
    by (auto split: option.splits)
  from remove_chunk_calls_within[OF r1] obtain cs1 where
    cs1: "calls (batch_world r1) = calls (fst s) @ cs1"
      "\<forall>c \<in> set cs1. \<exists>xs. c = submit xs \<and> set xs \<subseteq> set chunk \<and> length xs \<le> max 1 (length chunk)"
    by blast
  have "set chunk \<subseteq> set (concat (chunk # chunks))" by simp
  from calls_within_mono[OF cs1(2) this m]
  have cs1': "\<forall>c \<in> set cs1. \<exists>xs. c = submit xs \<and> set xs \<subseteq> set (concat (chunk # chunks)) \<and> length xs \<le> B" .
  show ?case
  proof (cases r1)
    case (Inl e)
    with Cons.prems(1) r1 have "r = r1" by simp
    with cs1(1) cs1' show ?thesis by blast
  next
    case (Inr s1)
    with Cons.prems(1) r1 have rest: "remove_chunks sp submit failed chunks s1 = Some r" by simp
    from Cons.prems(2) have "\<forall>chunk \<in> set chunks. chunk \<noteq> [] \<and> length chunk \<le> B" by simp
    from Cons.IH[OF rest this] obtain cs2 where
      cs2: "calls (batch_world r) = calls (fst s1) @ cs2"
        "\<forall>c \<in> set cs2. \<exists>xs. c = submit xs \<and> set xs \<subseteq> set (concat chunks) \<and> length xs \<le> B"
      by blast
    from Inr cs1(1) have "calls (fst s1) = calls (fst s) @ cs1"
      by (simp add: batch_world_def)
    with cs2(1) have "calls (batch_world r) = calls (fst s) @ (cs1 @ cs2)" by simp
    moreover have "set (concat chunks) \<subseteq> set (concat (chunk # chunks))" by simp
    from calls_within_mono[OF cs2(2) this order_refl]
    have "\<forall>c \<in> set cs2. \<exists>xs. c = submit xs \<and> set xs \<subseteq> set (concat (chunk # chunks)) \<and> length xs \<le> B" .
    with cs1' have "\<forall>c \<in> set (cs1 @ cs2). \<exists>xs. c = submit xs \<and> set xs \<subseteq> set (concat (chunk # chunks)) \<and> length xs \<le> B"
      by (simp only: set_append ball_Un simp_thms)
    ultimately show ?thesis by blast
  qed
qed

lemma remove_batches_calls_within:
  assumes "remove_batches sp submit failed candidates B w = Some r" and "0 < B"
  shows "\<exists>cs. calls (batch_world r) = calls w @ cs
           \<and> (\<forall>c \<in> set cs. \<exists>xs. c = submit xs \<and> set xs \<subseteq> set candidates \<and> length xs \<le> B)"
proof -
  from assms have run: "remove_chunks sp submit failed (chunks_from candidates B 0) (w, 0) = Some r"
    by (simp add: remove_batches_def chunked_list_def)
  have "\<forall>chunk \<in> set (chunks_from candidates B 0). chunk \<noteq> [] \<and> length chunk \<le> B"
    using chunks_from_length by blast
  from remove_chunks_calls_within[OF run this] assms(2) show ?thesis
    by (simp add: chunks_from_concat)
qed

lemma input_calls:
  "input p w = Inr (line, w1) \<Longrightarrow> calls w1 = calls w"
  "input p w = Inl (e, w1) \<Longrightarrow> calls w1 = calls w"
  by (auto simp: input_def print_def split: list.splits)

lemma calls_print: "calls (print m w) = calls w"
  by (simp add: print_def)

lemma year_flow_calls_within:
  assumes "remove_tracks_before_year_from_playlist sp pages y w = Some r"
  shows "\<exists>cs. calls (outcome_world r) = calls w @ cs
           \<and> (\<forall>c \<in> set cs. \<exists>xs. c = Remove_all_occurrences xs
                 \<and> set xs \<subseteq> set (map uri (filter (\<lambda>t. YearCutoffMatch t y) (tracks_of pages)))
                 \<and> length xs \<le> 100)"
proof -
  let ?matches = "year_pages pages y []"
  let ?unique = "unique_loop ?matches []"
  let ?w1 = "print_matches ?unique 1 (print List_header (print (Searching y) w))"
  have cands: "set (map fst ?unique) = set (map uri (filter (\<lambda>t. YearCutoffMatch t y) (tracks_of pages)))"
  proof -
    have "match_uri \<circ> match_of = uri" by (rule ext) (simp add: match_of_def)
    then show ?thesis by (simp add: unique_loop_keys fromkeys_acc_set year_pages_eq)
  qed
  have w1: "calls ?w1 = calls w" by (simp add: print_matches_calls print_def)
  have same: "calls (outcome_world r) = calls w \<Longrightarrow> ?thesis"
    by (intro exI[of _ "[]"]) simp
  show ?thesis
  proof (cases "?matches = []")
    case True
    with assms have "calls (outcome_world r) = calls w"
      by (auto simp: remove_tracks_before_year_from_playlist_def Let_def outcome_world_def print_def)
    then show ?thesis by (rule same)
  next
    case False
    show ?thesis
    proof (cases "input Confirm_prompt ?w1")
      case (Inl e)
      with assms False have "calls (outcome_world r) = calls w"
        using input_calls(2)[of Confirm_prompt ?w1 "fst e" "snd e"] w1
        by (auto simp: remove_tracks_before_year_from_playlist_def Let_def outcome_world_def
              split: prod.splits)
      then show ?thesis by (rule same)
    next
      case (Inr p)
      obtain line w2 where p: "p = (line, w2)" by (cases p)
      with Inr have w2: "calls w2 = calls w" using input_calls(1) w1 by metis
      show ?thesis
      proof (cases "lower (strip line) \<noteq> ''s'' \<or> map fst ?unique = []")
        case True
        with assms False Inr p w2 have "calls (outcome_world r) = calls w"
          by (auto simp: remove_tracks_before_year_from_playlist_def Let_def outcome_world_def
                calls_print split: if_splits)
        then show ?thesis by (rule same)
      next
        case go: False
        with assms False Inr p obtain rb where
          rb: "remove_batches sp Remove_all_occurrences Failed_uri (map fst ?unique) 100 w2 = Some rb"
          and r: "r = (case rb of Inl e \<Rightarrow> Inl e | Inr (w3, n) \<Rightarrow> Inr (print (Tracks_removed n) w3))"
          by (auto simp: remove_tracks_before_year_from_playlist_def Let_def
                split: option.splits sum.splits prod.splits if_splits)
        from r have "calls (outcome_world r) = calls (batch_world rb)"
          by (auto simp: outcome_world_def batch_world_def print_def split: sum.splits prod.splits)
        with remove_batches_calls_within[OF rb] w2 cands show ?thesis by simp
      qed
    qed
  qed
qed

lemma duplicates_flow_calls_within:
  assumes "remove_duplicates_from_playlist sp pages w = Some r"
    and "select_groups (duplicates (scan_playlist pages)) 1 []
             (print (Found_duplicates (length (duplicates (scan_playlist pages))))
                (print Scanning w)) = Inr (to_remove_items, w1)"
    and "calls w1 = calls w"
  shows "\<exists>cs. calls (outcome_world r) = calls w @ cs
           \<and> (\<forall>c \<in> set cs. \<exists>xs. c = Remove_specific_occurrences xs
                 \<and> set xs \<subseteq> set to_remove_items \<and> length xs \<le> 50)"
proof -
  from assms(1) have flow:
    "(if duplicates (scan_playlist pages) = [] then Some (Inr (print No_duplicates (print Scanning w)))
      else if to_remove_items = [] then Some (Inr (print Nothing_selected w1))
      else (case remove_batches sp Remove_specific_occurrences failed_occurrence
                   to_remove_items 50 w1 of
              None \<Rightarrow> None
            | Some (Inl e) \<Rightarrow> Some (Inl e)
            | Some (Inr (w2, removed_count)) \<Rightarrow>
                Some (Inr (print (Duplicates_removed removed_count) w2)))) = Some r"
    unfolding remove_duplicates_from_playlist_def Let_def assms(2) by (auto split: if_splits)
  show ?thesis
  proof (cases "duplicates (scan_playlist pages) = [] \<or> to_remove_items = []")
    case True
    with flow assms(3) have "calls (outcome_world r) = calls w @ []"
      by (auto simp: outcome_world_def calls_print split: if_splits)
    then show ?thesis by (intro exI[of _ "[]"]) simp
  next
    case False
    with flow obtain rb where
      rb: "remove_batches sp Remove_specific_occurrences failed_occurrence to_remove_items 50 w1
             = Some rb"
      and r: "r = (case rb of Inl e \<Rightarrow> Inl e
                   | Inr (w3, n) \<Rightarrow> Inr (print (Duplicates_removed n) w3))"
      by (auto split: option.splits sum.splits prod.splits if_splits)
    from r have "calls (outcome_world r) = calls (batch_world rb)"
      by (auto simp: outcome_world_def batch_world_def calls_print split: sum.splits prod.splits)
    with remove_batches_calls_within[OF rb] assms(3) show ?thesis by simp
  qed
qed

lemma retry_after_default:
  "retry_after None = Some 5"
  "map_of (map (\<lambda>(k, v). (lower k, v)) headers) (lower ''Retry-After'') = None \<Longrightarrow>
   retry_after (Some headers) = Some 5"
  "map_of (map (\<lambda>(k, v). (lower k, v)) headers) (lower ''Retry-After'') = Some v \<Longrightarrow>
   retry_after (Some headers) = py_int v"
  by (simp_all add: retry_after_def headers_get_def string_defs)

lemma remove_chunk_retries_then_success:
  assumes "\<forall>i<k. \<exists>hs.
      sp (calls w @ replicate i (submit chunk)) (submit chunk) = Spotify_Exception (Some 429) hs
      \<and> retry_after hs = Some (d i) \<and> 0 \<le> d i \<and> d i \<le> 9223372036
      \<and> clock w (slept w @ map d [0..<i]) (d i)"
    and "sp (calls w @ replicate k (submit chunk)) (submit chunk) = Success"
  shows "remove_chunk sp submit failed chunk (w, n) =
        Some (Inr (w\<lparr>calls := calls w @ replicate (Suc k) (submit chunk),
                     printed := printed w @ map (\<lambda>i. Rate_limit (d i)) [0..<k],
                     slept := slept w @ map d [0..<k]\<rparr>, n + length chunk))"
proof -
  let ?wk = "w\<lparr>calls := calls w @ replicate k (submit chunk),
             printed := printed w @ map (\<lambda>i. Rate_limit (d i)) [0..<k],
             slept := slept w @ map d [0..<k]\<rparr>"
  from assms(1) have "remove_chunk sp submit failed chunk (w, n) =
        remove_chunk sp submit failed chunk (?wk, n)"
    by (rule remove_chunk_retries_ex)
  also from assms(2)
  have "\<dots> = Some (Inr (?wk\<lparr>calls := calls ?wk @ [submit chunk]\<rparr>, n + length chunk))"
    by (intro remove_chunk_success) simp
  finally show ?thesis by (simp add: replicate_append_same)
qed

lemma remove_chunk_retry_run:
  "remove_chunk limited_twice Remove_all_occurrences Failed_uri [''u1'', ''u2'']
     (fresh_world [], 0) =
   Some (Inr (\<lparr>calls = [Remove_all_occurrences [''u1'', ''u2''],
                        Remove_all_occurrences [''u1'', ''u2''],
                        Remove_all_occurrences [''u1'', ''u2'']],
               slept = [3, 5], printed = [Rate_limit 3, Rate_limit 5], stdin = [],
               clock = accepting_clock\<rparr>, 2))"
  by (simp add: fixture_defs limited_twice_def string_defs run_defs)

lemma remove_chunk_always_limited:
  "remove_chunk always_limited Remove_all_occurrences Failed_uri [''u1'', ''u2'']
     (fresh_world [], 0) = None"
  by (rule remove_chunk_never_gives_up)
     (simp_all add: always_limited_def retry_after_default fixture_defs)

lemma lower_append: "lower (xs @ ys) = lower xs @ lower ys"
  by (simp add: lower_def)










section \<open>The claims\<close>

text \<open>
  C5. Whatever the pages of the playlist, the duplicate scan yields exactly the items
  whose track is not null, in the order of the source, and numbers them 0, 1, 2, ...:
  an item whose track is null gets no entry and does not advance the position counter.
\<close>

theorem scan_playlist_positions:
  "scan_playlist pages = map entry_of (enumerate 0 (non_null (concat pages)))
   \<and> map position (scan_playlist pages) = [0 ..< length (non_null (concat pages))]"
proof -
  have "position \<circ> entry_of = fst"
    by (rule ext) (simp add: entry_of_def split: prod.splits)
  then show ?thesis by (simp add: scan_playlist_eq)
qed

theorem scan_playlist_positions_witness:
  "map position (scan_playlist song_twice_pages) = [0, 1]
   \<and> map entry_uri (scan_playlist song_twice_pages) = [''u1'', ''u1'']
   \<and> map entry_name (scan_playlist song_twice_pages) = [''Song'', ''Song'']"
  using scan_playlist_positions [of song_twice_pages]
  by (simp add: song_twice_pages_def fixture_defs entry_of_def)

text \<open>
  C10. In the track-name flow the count printed on success is the number of matching
  occurrences met by the scan, whereas the list submitted holds each matching URI once;
  when a matching URI occurs more than once, the printed count is strictly greater than
  the number of URIs submitted.
\<close>

theorem name_flow_reports_occurrences:
  assumes "tracks_to_remove =
             map uri (filter (\<lambda>t. lower (name t) = lower track_name) (tracks_of pages))"
    and "tracks_to_remove \<noteq> []"
    and "sp (calls w) (Remove_all_occurrences (dict_fromkeys tracks_to_remove)) = Success"
  shows "calls (remove_music_from_playlist sp pages track_name w) =
           calls w @ [Remove_all_occurrences (dict_fromkeys tracks_to_remove)]
       \<and> printed (remove_music_from_playlist sp pages track_name w) =
           printed w @ [Name_removed (length tracks_to_remove) track_name]
       \<and> distinct (dict_fromkeys tracks_to_remove)
       \<and> set (dict_fromkeys tracks_to_remove) = set tracks_to_remove
       \<and> (\<not> distinct tracks_to_remove \<longrightarrow>
            length (dict_fromkeys tracks_to_remove) < length tracks_to_remove)"
proof -
  have scan: "music_pages pages track_name [] = tracks_to_remove"
    using assms(1) by (simp add: music_pages_eq)
  have "remove_music_from_playlist sp pages track_name w =
          print (Name_removed (length tracks_to_remove) track_name)
            (w\<lparr>calls := calls w @ [Remove_all_occurrences (dict_fromkeys tracks_to_remove)]\<rparr>)"
    using assms(2,3) by (simp add: remove_music_from_playlist_def scan do_call_def)
  then show ?thesis
    by (simp add: print_def dict_fromkeys_distinct dict_fromkeys_set dict_fromkeys_shorter)
qed

theorem name_flow_reports_occurrences_witness:
  "calls (remove_music_from_playlist always_success song_twice_pages ''SONG'' (fresh_world [])) =
     [Remove_all_occurrences [''u1'']]
   \<and> printed (remove_music_from_playlist always_success song_twice_pages ''SONG'' (fresh_world [])) =
     [Name_removed 2 ''SONG'']"
proof -
  have a: "[''u1'', ''u1''] =
      map uri (filter (\<lambda>t. lower (name t) = lower ''SONG'') (tracks_of song_twice_pages))"
    by (simp add: song_twice_pages_def fixture_defs tracks_of_def string_defs)
  have b: "always_success (calls (fresh_world []))
             (Remove_all_occurrences (dict_fromkeys [''u1'', ''u1''])) = Success"
    by (simp add: always_success_def)
  have c: "[''u1'', ''u1''] \<noteq> ([] :: string list)"
    by simp
  from name_flow_reports_occurrences [where sp = always_success and w = "fresh_world []", OF a c b]
  show ?thesis by (simp add: dict_fromkeys_def fresh_world_def)
qed

text \<open>
  C7. The year scan selects a track exactly when its release date is present, the first
  four characters of the date parse as an integer and that year is below the cutoff; the
  URIs handed to the removal loop are those of the selected tracks, each once; and every
  mutation call the flow issues, however it ends, carries URIs of selected tracks only.
  A track with no album, no release date or a date that does not parse is never selected.
\<close>

theorem year_cutoff_selection:
  "map match_uri (year_pages pages year_cutoff []) =
     map uri (filter (\<lambda>t. YearCutoffMatch t year_cutoff) (tracks_of pages))
   \<and> map fst (unique_loop (year_pages pages year_cutoff []) []) =
     dict_fromkeys (map uri (filter (\<lambda>t. YearCutoffMatch t year_cutoff) (tracks_of pages)))
   \<and> (YearCutoffMatch t year_cutoff \<longleftrightarrow>
        (\<exists>a rd release_year. album t = Some a \<and> release_date a = Some rd
           \<and> py_int (take 4 rd) = Some release_year \<and> release_year < year_cutoff))
   \<and> (remove_tracks_before_year_from_playlist sp pages year_cutoff w = Some r \<longrightarrow>
        (\<exists>cs. calls (outcome_world r) = calls w @ cs
           \<and> (\<forall>c \<in> set cs. \<exists>xs. c = Remove_all_occurrences xs
                 \<and> set xs \<subseteq> set (map uri (filter (\<lambda>t. YearCutoffMatch t year_cutoff)
                                                (tracks_of pages))))))"
proof -
  have "match_uri \<circ> match_of = uri"
    by (rule ext) (simp add: match_of_def)
  then have a: "map match_uri (year_pages pages year_cutoff []) =
     map uri (filter (\<lambda>t. YearCutoffMatch t year_cutoff) (tracks_of pages))"
    by (simp add: year_pages_eq)
  from a have b: "map fst (unique_loop (year_pages pages year_cutoff []) []) =
     dict_fromkeys (map uri (filter (\<lambda>t. YearCutoffMatch t year_cutoff) (tracks_of pages)))"
    by (simp add: unique_loop_keys dict_fromkeys_def)
  have c: "YearCutoffMatch t year_cutoff \<longleftrightarrow>
        (\<exists>a rd release_year. album t = Some a \<and> release_date a = Some rd
           \<and> py_int (take 4 rd) = Some release_year \<and> release_year < year_cutoff)"
    by (auto simp: YearCutoffMatch_def split: option.splits)
  have d: "remove_tracks_before_year_from_playlist sp pages year_cutoff w = Some r \<longrightarrow>
        (\<exists>cs. calls (outcome_world r) = calls w @ cs
           \<and> (\<forall>c \<in> set cs. \<exists>xs. c = Remove_all_occurrences xs
                 \<and> set xs \<subseteq> set (map uri (filter (\<lambda>t. YearCutoffMatch t year_cutoff)
                                                (tracks_of pages)))))"
  proof
    assume "remove_tracks_before_year_from_playlist sp pages year_cutoff w = Some r"
    from year_flow_calls_within[OF this] obtain cs where
      cs: "calls (outcome_world r) = calls w @ cs"
        "\<forall>c \<in> set cs. \<exists>xs. c = Remove_all_occurrences xs
           \<and> set xs \<subseteq> set (map uri (filter (\<lambda>t. YearCutoffMatch t year_cutoff) (tracks_of pages)))
           \<and> length xs \<le> 100"
      by blast
    from cs(2) have "\<forall>c \<in> set cs. \<exists>xs. c = Remove_all_occurrences xs
           \<and> set xs \<subseteq> set (map uri (filter (\<lambda>t. YearCutoffMatch t year_cutoff) (tracks_of pages)))"
      by blast
    with cs(1) show "\<exists>cs. calls (outcome_world r) = calls w @ cs
           \<and> (\<forall>c \<in> set cs. \<exists>xs. c = Remove_all_occurrences xs
                 \<and> set xs \<subseteq> set (map uri (filter (\<lambda>t. YearCutoffMatch t year_cutoff)
                                                (tracks_of pages))))"
      by blast
  qed
  from a b c d show ?thesis by (intro conjI)
qed

theorem year_cutoff_selection_witness:
  "map match_uri (year_pages dated_pages 2010 []) = [''u1'', ''u1'']
   \<and> map fst (unique_loop (year_pages dated_pages 2010 []) []) = [''u1'']
   \<and> remove_tracks_before_year_from_playlist always_success dated_pages 2010 (fresh_world [''s'']) =
       Some (Inr \<lparr>calls = [Remove_all_occurrences [''u1'']], slept = [],
                  printed = [Searching 2010, List_header,
                             List_line 1 ''Old'' ''A'' ''2008-03-01'', Confirm_prompt,
                             Tracks_removed 1],
                  stdin = [], clock = accepting_clock\<rparr>)
   \<and> (\<exists>cs. [Remove_all_occurrences [''u1'']] = cs
          \<and> (\<forall>c \<in> set cs. \<exists>xs. c = Remove_all_occurrences xs \<and> set xs \<subseteq> {''u1''}))"
proof -
  let ?done = "\<lparr>calls = [Remove_all_occurrences [''u1'']], slept = [],
                  printed = [Searching 2010, List_header,
                             List_line 1 ''Old'' ''A'' ''2008-03-01'', Confirm_prompt,
                             Tracks_removed 1],
                  stdin = [], clock = accepting_clock\<rparr>"
  note T = year_cutoff_selection
    [where pages = dated_pages and year_cutoff = 2010 and sp = always_success
       and w = "fresh_world [''s'']" and r = "Inr ?done"]
  have sel: "map uri (filter (\<lambda>t. YearCutoffMatch t 2010) (tracks_of dated_pages)) = [''u1'', ''u1'']"
    by (simp add: dated_pages_def fixture_defs tracks_of_def YearCutoffMatch_def string_defs)
  have run: "remove_tracks_before_year_from_playlist always_success dated_pages 2010
               (fresh_world [''s'']) = Some (Inr ?done)"
    by (simp add: dated_pages_def fixture_defs string_defs run_defs)
  have c1: "map match_uri (year_pages dated_pages 2010 []) = [''u1'', ''u1'']"
    using T [THEN conjunct1] sel by simp
  have c2: "map fst (unique_loop (year_pages dated_pages 2010 []) []) = [''u1'']"
    using T [THEN conjunct2, THEN conjunct1] sel by (simp add: dict_fromkeys_def)
  have c4: "\<exists>cs. [Remove_all_occurrences [''u1'']] = cs
          \<and> (\<forall>c \<in> set cs. \<exists>xs. c = Remove_all_occurrences xs \<and> set xs \<subseteq> {''u1''})"
    using T [THEN conjunct2, THEN conjunct2, THEN conjunct2] run sel
    by (simp add: outcome_world_def fresh_world_def)
  from c1 c2 run c4 show ?thesis by (intro conjI)
qed

text \<open>
  C9. In the duplicate flow and in the year flow, the count printed after the last chunk
  is at most the number of candidates handed to the removal loop; within the loop, one
  chunk raises the count by at most its length.
\<close>

theorem reported_count_le_candidates:
  "(remove_duplicates_from_playlist sp pages w = Some (Inr w')
      \<and> last (printed w') = Duplicates_removed n \<longrightarrow>
    (\<exists>to_remove_items w1.
       select_groups (duplicates (scan_playlist pages)) 1 []
         (print (Found_duplicates (length (duplicates (scan_playlist pages))))
            (print Scanning w)) = Inr (to_remove_items, w1)
       \<and> n \<le> length to_remove_items))
   \<and> (remove_tracks_before_year_from_playlist sp pages year_cutoff w = Some (Inr w')
      \<and> last (printed w') = Tracks_removed n \<longrightarrow>
    n \<le> length (map fst (unique_loop (year_pages pages year_cutoff []) [])))
   \<and> (remove_chunk sp submit failed chunk (w, k) = Some (Inr (w', k')) \<longrightarrow>
    k \<le> k' \<and> k' \<le> k + length chunk)"
  using duplicates_flow_count [of sp pages w w' n]
    year_flow_count [of sp pages year_cutoff w w' n]
    remove_chunk_count [of sp submit failed chunk "(w, k)" "Inr (w', k')"]
  by simp

theorem reported_count_le_candidates_witness:
  "remove_duplicates_from_playlist always_success song_twice_pages (fresh_world [''x'', '' 2 '']) =
     Some (Inr \<lparr>calls = [Remove_specific_occurrences [\<lparr>occ_uri = ''u1'', positions = [1]\<rparr>]],
                slept = [],
                printed = [Scanning, Found_duplicates 1, Group_header 1 ''Song'' 2,
                           Occurrence_line 1 0 None ''A'', Occurrence_line 2 1 None ''A'',
                           Choose_prompt ''Song'' 2, Invalid_input, Choose_prompt ''Song'' 2,
                           Selected 1, Duplicates_removed 1],
                stdin = [], clock = accepting_clock\<rparr>)
   \<and> (\<exists>to_remove_items w1.
         select_groups (duplicates (scan_playlist song_twice_pages)) 1 []
           (print (Found_duplicates (length (duplicates (scan_playlist song_twice_pages))))
              (print Scanning (fresh_world [''x'', '' 2 '']))) = Inr (to_remove_items, w1)
         \<and> 1 \<le> length to_remove_items)
   \<and> remove_tracks_before_year_from_playlist reject_first song_twice_pages 2010 (fresh_world [''s'']) =
     Some (Inr \<lparr>calls = [Remove_all_occurrences [''u1''], Remove_all_occurrences [''u1'']],
                slept = [],
                printed = [Searching 2010, List_header, List_line 1 ''Song'' ''A'' ''2008-03-01'',
                           Confirm_prompt, Batch_error, Tracks_removed 1],
                stdin = [], clock = accepting_clock\<rparr>)
   \<and> 1 \<le> length (map fst (unique_loop (year_pages song_twice_pages 2010 []) []))
   \<and> remove_chunk item_u2_fails Remove_all_occurrences Failed_uri [''u1'', ''u2'', ''u3'']
         (fresh_world [], 0) =
     Some (Inr (\<lparr>calls = [Remove_all_occurrences [''u1'', ''u2'', ''u3''],
                          Remove_all_occurrences [''u1''], Remove_all_occurrences [''u2''],
                          Remove_all_occurrences [''u3'']],
                 slept = [], printed = [Batch_error, Failed_uri ''u2''], stdin = [], clock = accepting_clock\<rparr>, 2))
   \<and> (2 :: nat) \<le> 0 + length [''u1'', ''u2'', ''u3'']"
proof -
  let ?w1 = "\<lparr>calls = [Remove_specific_occurrences [\<lparr>occ_uri = ''u1'', positions = [1]\<rparr>]],
                slept = [],
                printed = [Scanning, Found_duplicates 1, Group_header 1 ''Song'' 2,
                           Occurrence_line 1 0 None ''A'', Occurrence_line 2 1 None ''A'',
                           Choose_prompt ''Song'' 2, Invalid_input, Choose_prompt ''Song'' 2,
                           Selected 1, Duplicates_removed 1],
                stdin = [], clock = accepting_clock\<rparr>"
  let ?w2 = "\<lparr>calls = [Remove_all_occurrences [''u1''], Remove_all_occurrences [''u1'']],
                slept = [],
                printed = [Searching 2010, List_header, List_line 1 ''Song'' ''A'' ''2008-03-01'',
                           Confirm_prompt, Batch_error, Tracks_removed 1],
                stdin = [], clock = accepting_clock\<rparr>"
  let ?w3 = "\<lparr>calls = [Remove_all_occurrences [''u1'', ''u2'', ''u3''],
                          Remove_all_occurrences [''u1''], Remove_all_occurrences [''u2''],
                          Remove_all_occurrences [''u3'']],
                 slept = [], printed = [Batch_error, Failed_uri ''u2''], stdin = [], clock = accepting_clock\<rparr>"
  have r1: "remove_duplicates_from_playlist always_success song_twice_pages
              (fresh_world [''x'', '' 2 '']) = Some (Inr ?w1)"
    by (simp add: song_twice_pages_def fixture_defs string_defs run_defs)
  have r2: "remove_tracks_before_year_from_playlist reject_first song_twice_pages 2010
              (fresh_world [''s'']) = Some (Inr ?w2)"
    by (simp add: song_twice_pages_def fixture_defs reject_first_def string_defs run_defs)
  have r3: "remove_chunk item_u2_fails Remove_all_occurrences Failed_uri [''u1'', ''u2'', ''u3'']
              (fresh_world [], 0) = Some (Inr (?w3, 2))"
    by (simp add: fixture_defs item_u2_fails_def run_defs)
  have c1: "\<exists>to_remove_items w1.
         select_groups (duplicates (scan_playlist song_twice_pages)) 1 []
           (print (Found_duplicates (length (duplicates (scan_playlist song_twice_pages))))
              (print Scanning (fresh_world [''x'', '' 2 '']))) = Inr (to_remove_items, w1)
         \<and> 1 \<le> length to_remove_items"
    using reported_count_le_candidates
            [where sp = always_success and pages = song_twice_pages
               and w = "fresh_world [''x'', '' 2 '']" and w' = ?w1 and n = 1, THEN conjunct1]
      r1
    by simp
  have c2: "1 \<le> length (map fst (unique_loop (year_pages song_twice_pages 2010 []) []))"
    using reported_count_le_candidates
            [where sp = reject_first and pages = song_twice_pages and year_cutoff = 2010
               and w = "fresh_world [''s'']" and w' = ?w2 and n = 1,
             THEN conjunct2, THEN conjunct1]
      r2
    by simp
  have c3: "(2 :: nat) \<le> 0 + length [''u1'', ''u2'', ''u3'']"
    using reported_count_le_candidates
            [where sp = item_u2_fails and submit = Remove_all_occurrences and failed = Failed_uri
               and chunk = "[''u1'', ''u2'', ''u3'']" and w = "fresh_world []" and k = 0
               and w' = ?w3 and k' = 2,
             THEN conjunct2, THEN conjunct2]
      r3
    by simp
  from r1 c1 r2 c2 r3 c3 show ?thesis by blast
qed




text \<open>
  C8. In the year flow, an answer other than \<open>s\<close> (after stripping and lowercasing)
  ends the flow with no mutation call, and the message that the operation was cancelled
  when there were matches; a run of the year flow that issues a mutation call has read
  the answer \<open>s\<close>. The artist flow and the track-name flow read nothing from the user
  and, when the scan found something, issue their call at once.
\<close>

theorem confirmation_gate:
  "(stdin w = line # rest \<and> lower (strip line) \<noteq> ''s'' \<longrightarrow>
      (\<exists>w'. remove_tracks_before_year_from_playlist sp pages year_cutoff w = Some (Inr w')
         \<and> calls w' = calls w
         \<and> (year_pages pages year_cutoff [] \<noteq> [] \<longrightarrow> last (printed w') = Cancelled)))
   \<and> (remove_tracks_before_year_from_playlist sp pages year_cutoff w = Some r
        \<and> calls (outcome_world r) \<noteq> calls w \<longrightarrow>
      (\<exists>answer more. stdin w = answer # more \<and> lower (strip answer) = ''s''))
   \<and> stdin (remove_artist_from_playlist sp pages artist_name w) = stdin w
   \<and> (artist_pages pages artist_name [] \<noteq> [] \<longrightarrow>
        calls (remove_artist_from_playlist sp pages artist_name w) =
          calls w @ [Remove_all_occurrences (artist_pages pages artist_name [])])
   \<and> stdin (remove_music_from_playlist sp pages track_name w) = stdin w
   \<and> (music_pages pages track_name [] \<noteq> [] \<longrightarrow>
        calls (remove_music_from_playlist sp pages track_name w) =
          calls w @ [Remove_all_occurrences (dict_fromkeys (music_pages pages track_name []))])"
  using year_flow_not_confirmed [of w line rest sp pages year_cutoff]
    year_flow_calls_only_if_confirmed [of sp pages year_cutoff w r]
    artist_flow_immediate [of sp pages artist_name w]
    music_flow_immediate [of sp pages track_name w]
  by blast

theorem confirmation_gate_witness:
  "(\<exists>w'. remove_tracks_before_year_from_playlist always_success song_twice_pages 2010
            (fresh_world [''n'']) = Some (Inr w')
         \<and> calls w' = [] \<and> last (printed w') = Cancelled)
   \<and> (\<exists>answer more. [''S ''] = answer # more \<and> lower (strip answer) = ''s'')
   \<and> stdin (remove_artist_from_playlist always_success song_twice_pages ''a'' (fresh_world [''n''])) =
       [''n'']
   \<and> calls (remove_artist_from_playlist always_success song_twice_pages ''a'' (fresh_world [''n''])) =
       [Remove_all_occurrences [''u1'', ''u1'']]
   \<and> stdin (remove_music_from_playlist always_success song_twice_pages ''song'' (fresh_world [''n''])) =
       [''n'']
   \<and> calls (remove_music_from_playlist always_success song_twice_pages ''song'' (fresh_world [''n''])) =
       [Remove_all_occurrences [''u1'']]"
proof -
  note N = confirmation_gate
    [where sp = always_success and pages = song_twice_pages and year_cutoff = 2010
       and w = "fresh_world [''n'']" and line = "''n''" and rest = "[]"
       and artist_name = "''a''" and track_name = "''song''"]
  let ?done = "\<lparr>calls = [Remove_all_occurrences [''u1'']], slept = [],
                 printed = [Searching 2010, List_header, List_line 1 ''Song'' ''A'' ''2008-03-01'',
                            Confirm_prompt, Tracks_removed 1],
                 stdin = [], clock = accepting_clock\<rparr>"
  note Y = confirmation_gate
    [where sp = always_success and pages = song_twice_pages and year_cutoff = 2010
       and w = "fresh_world [''S '']" and r = "Inr ?done", THEN conjunct2, THEN conjunct1]
  have ym: "year_pages song_twice_pages 2010 [] \<noteq> []"
    by (simp add: song_twice_pages_def fixture_defs string_defs)
  have am: "artist_pages song_twice_pages ''a'' [] = [''u1'', ''u1'']"
    by (simp add: song_twice_pages_def fixture_defs string_defs)
  have mm: "music_pages song_twice_pages ''song'' [] = [''u1'', ''u1'']"
    by (simp add: song_twice_pages_def fixture_defs string_defs)
  have no: "lower (strip ''n'') \<noteq> ''s''"
    by (simp add: string_defs)
  have run: "remove_tracks_before_year_from_playlist always_success song_twice_pages 2010
               (fresh_world [''S '']) = Some (Inr ?done)"
    by (simp add: song_twice_pages_def fixture_defs string_defs run_defs)
  have c1: "\<exists>w'. remove_tracks_before_year_from_playlist always_success song_twice_pages 2010
            (fresh_world [''n'']) = Some (Inr w')
         \<and> calls w' = [] \<and> last (printed w') = Cancelled"
    using N [THEN conjunct1] ym no by (simp add: fresh_world_def)
  have c2: "\<exists>answer more. [''S ''] = answer # more \<and> lower (strip answer) = ''s''"
    using Y run by (simp add: outcome_world_def fresh_world_def)
  have c3: "stdin (remove_artist_from_playlist always_success song_twice_pages ''a'' (fresh_world [''n''])) =
       [''n'']"
    using N [THEN conjunct2, THEN conjunct2, THEN conjunct1] by (simp add: fresh_world_def)
  have c4: "calls (remove_artist_from_playlist always_success song_twice_pages ''a'' (fresh_world [''n''])) =
       [Remove_all_occurrences [''u1'', ''u1'']]"
    using N [THEN conjunct2, THEN conjunct2, THEN conjunct2, THEN conjunct1] am
    by (simp add: fresh_world_def)
  have c5: "stdin (remove_music_from_playlist always_success song_twice_pages ''song'' (fresh_world [''n''])) =
       [''n'']"
    using N [THEN conjunct2, THEN conjunct2, THEN conjunct2, THEN conjunct2, THEN conjunct1]
    by (simp add: fresh_world_def)
  have c6: "calls (remove_music_from_playlist always_success song_twice_pages ''song'' (fresh_world [''n''])) =
       [Remove_all_occurrences [''u1'']]"
    using N [THEN conjunct2, THEN conjunct2, THEN conjunct2, THEN conjunct2, THEN conjunct2] mm
    by (simp add: fresh_world_def dict_fromkeys_def)
  from c1 c2 c3 c4 c5 c6 show ?thesis by blast
qed

text \<open>
  C3 on the artist flow: a playlist that holds the same track twice. The list submitted
  holds its URI twice; the track-name flow and the year flow submit it once.
\<close>

theorem artist_flow_submits_repeated_uri:
  "remove_artist_from_playlist always_success song_twice_pages ''a'' (fresh_world []) =
     \<lparr>calls = [Remove_all_occurrences [''u1'', ''u1'']], slept = [],
      printed = [Artist_removed 2 ''a''], stdin = [], clock = accepting_clock\<rparr>"
  by (simp add: song_twice_pages_def fixture_defs string_defs remove_artist_from_playlist_def
        do_call_def print_def)

text \<open>
  C4 on the artist flow: a playlist of 101 different tracks of one artist. The flow
  submits all 101 URIs in one call.
\<close>

theorem artist_flow_single_call:
  "calls (remove_artist_from_playlist sp [many_tracks 101] ''a'' (fresh_world [])) =
     [Remove_all_occurrences (map numbered_uri [0..<101])]
   \<and> length (map numbered_uri [0..<101]) = 101
   \<and> distinct (map numbered_uri [0..<101])"
proof (intro conjI)
  have "(0::nat) < 101" by simp
  from artist_many [OF this, of sp "fresh_world []"]
  show "calls (remove_artist_from_playlist sp [many_tracks 101] ''a'' (fresh_world [])) =
     [Remove_all_occurrences (map numbered_uri [0..<101])]"
    by (simp only: fresh_world_def world.simps append_Nil)
  show "length (map numbered_uri [0..<101]) = 101"
    by (simp only: length_map length_upt diff_zero)
  show "distinct (map numbered_uri [0..<101])"
    unfolding distinct_map
    using distinct_upt inj_on_subset [OF inj_numbered_uri subset_UNIV] by blast
qed

text \<open>
  C2 on the artist flow: the remote rejects the call with status 400. The flow prints the
  error and ends; no item is submitted on its own.
\<close>

theorem artist_flow_no_fallback:
  "remove_artist_from_playlist always_rejecting two_tracks_pages ''a'' (fresh_world []) =
     \<lparr>calls = [Remove_all_occurrences [''u1'', ''u2'']], slept = [],
      printed = [Remove_error], stdin = [], clock = accepting_clock\<rparr>"
  by (simp add: two_tracks_pages_def fixture_defs always_rejecting_def string_defs
        remove_artist_from_playlist_def do_call_def print_def)

text \<open>
  C1 on both chunked flows: the first bulk call is answered 429 with a \<open>Retry-After\<close>
  header that holds an HTTP date. \<open>int\<close> raises ValueError inside the handler: the
  flow neither sleeps 5 seconds nor submits the chunk again, and the exception leaves it
  after the one call.
\<close>

theorem unparseable_retry_after_raises:
  "remove_tracks_before_year_from_playlist limited_with_date song_twice_pages 2010
     (fresh_world [''s'']) =
   Some (Inl (ValueError,
     \<lparr>calls = [Remove_all_occurrences [''u1'']], slept = [],
      printed = [Searching 2010, List_header, List_line 1 ''Song'' ''A'' ''2008-03-01'',
                 Confirm_prompt],
      stdin = [], clock = accepting_clock\<rparr>))
   \<and> remove_duplicates_from_playlist limited_with_date song_twice_pages (fresh_world [''1'']) =
   Some (Inl (ValueError,
     \<lparr>calls = [Remove_specific_occurrences [\<lparr>occ_uri = ''u1'', positions = [0]\<rparr>]],
      slept = [],
      printed = [Scanning, Found_duplicates 1, Group_header 1 ''Song'' 2,
                 Occurrence_line 1 0 None ''A'', Occurrence_line 2 1 None ''A'',
                 Choose_prompt ''Song'' 2, Selected 0],
      stdin = [], clock = accepting_clock\<rparr>))"
  by (simp add: song_twice_pages_def fixture_defs limited_with_date_def string_defs run_defs)

end
